theory Spec2Isabelle
  imports Complex_Main
begin

section \<open>Numbers, dates and exceptions\<close>

text \<open>
  Timestamps are the integral millisecond counts that \<^verbatim>\<open>Date.now()\<close> yields; limits,
  windows and counters are integers as well, so all of them are modelled as \<^typ>\<open>int\<close>.
  A JavaScript \<^verbatim>\<open>Date\<close> wraps such a millisecond count; comparing two dates with
  \<^verbatim>\<open><\<close> compares their \<^verbatim>\<open>getTime()\<close> values.
\<close>

datatype Date = Date (getTime: int)

datatype exn = DbError | SyntaxError | TypeError

text \<open>The object both limiters return: \<^verbatim>\<open>{ allowed, remaining, resetTime }\<close>. The reset
  time is a number in the in-memory variant and a \<^verbatim>\<open>Date\<close> in the database variant; its
  field is \<open>res_resetTime\<close> here, \<open>resetTime\<close> being the field of the stored entries.\<close>

record 't rl_result =
  allowed :: bool
  remaining :: int
  res_resetTime :: 't

section \<open>The in-memory rate limiter (route.ts)\<close>

text \<open>The values of \<^verbatim>\<open>rateLimitStore\<close>: \<^verbatim>\<open>{ count: number; resetTime: number }\<close>.\<close>

record rl_entry =
  count :: int
  resetTime :: int

type_synonym rateLimitStore = "string \<rightharpoonup> rl_entry"

text \<open>\<^verbatim>\<open>const rateLimitStore = new Map()\<close>: the store as module initialisation leaves it.\<close>

definition rateLimitStore_init :: rateLimitStore where
  "rateLimitStore_init = Map.empty"

text \<open>The first branch of \<^verbatim>\<open>checkRateLimit\<close>: first request or window expired.\<close>

definition start_window ::
  "rateLimitStore \<Rightarrow> string \<Rightarrow> int \<Rightarrow> int \<Rightarrow> int \<Rightarrow> int rl_result \<times> rateLimitStore" where
  "start_window store ip limit windowMs now =
     (\<lparr>allowed = True, remaining = limit - 1, res_resetTime = now + windowMs\<rparr>,
      store(ip \<mapsto> \<lparr>count = 1, resetTime = now + windowMs\<rparr>))"

text \<open>\<^verbatim>\<open>checkRateLimit(ip, limit, windowMs)\<close>; \<open>now\<close> is the value \<^verbatim>\<open>Date.now()\<close> returns
  inside the call. The function returns the result object and the store it leaves.\<close>

definition checkRateLimit ::
  "rateLimitStore \<Rightarrow> string \<Rightarrow> int \<Rightarrow> int \<Rightarrow> int \<Rightarrow> int rl_result \<times> rateLimitStore" where
  "checkRateLimit store ip limit windowMs now =
     (case store ip of
        None \<Rightarrow> start_window store ip limit windowMs now
      | Some record \<Rightarrow>
          if now > resetTime record then start_window store ip limit windowMs now
          else if count record \<ge> limit then
            (\<lparr>allowed = False, remaining = 0, res_resetTime = resetTime record\<rparr>, store)
          else
            (let record' = record\<lparr>count := count record + 1\<rparr> in
             (\<lparr>allowed = True, remaining = limit - count record',
               res_resetTime = resetTime record'\<rparr>,
              store(ip \<mapsto> record'))))"

text \<open>The \<^verbatim>\<open>setInterval\<close> callback: every entry with \<^verbatim>\<open>now > value.resetTime\<close> is deleted.\<close>

definition cleanup :: "rateLimitStore \<Rightarrow> int \<Rightarrow> rateLimitStore" where
  "cleanup store now =
     (\<lambda>key. case store key of
               None \<Rightarrow> None
             | Some v \<Rightarrow> if now > resetTime v then None else Some v)"

text \<open>A sequence of calls with one limit and one window; each call is the identifier and
  the clock reading of that call.\<close>

fun mem_results :: "int \<Rightarrow> int \<Rightarrow> rateLimitStore \<Rightarrow> (string \<times> int) list \<Rightarrow> int rl_result list" where
  "mem_results limit windowMs store [] = []"
| "mem_results limit windowMs store ((ip, now) # cs) =
     fst (checkRateLimit store ip limit windowMs now)
       # mem_results limit windowMs (snd (checkRateLimit store ip limit windowMs now)) cs"

fun mem_store :: "int \<Rightarrow> int \<Rightarrow> rateLimitStore \<Rightarrow> (string \<times> int) list \<Rightarrow> rateLimitStore" where
  "mem_store limit windowMs store [] = store"
| "mem_store limit windowMs store ((ip, now) # cs) =
     mem_store limit windowMs (snd (checkRateLimit store ip limit windowMs now)) cs"

section \<open>The database-backed rate limiter\<close>

text \<open>A row of \<^verbatim>\<open>rate_limit_attempts\<close> (identifier text primary key, count integer,
  expires_at timestamptz). The table is the list of its rows. The fields for \<^verbatim>\<open>identifier\<close>
  and \<^verbatim>\<open>count\<close> carry the prefix \<open>db_\<close>: the one is a keyword of Isabelle, the other
  already names the field of the entries of the store.\<close>

record attempt_row =
  db_identifier :: string
  db_count :: int
  expiresAt :: Date

type_synonym attempts_table = "attempt_row list"

text \<open>The database statements the handlers issue. Each may throw; which ones do during a
  request is given by a predicate on the statements.\<close>

datatype db_op = SelectAttempt | UpsertAttempt | UpdateAttempt | SelectWaitlist | InsertWaitlist

definition no_faults :: "db_op \<Rightarrow> bool" where
  "no_faults op = False"

text \<open>\<^verbatim>\<open>select().from(rateLimitAttempts).where(eq(identifier, ip)).limit(1)\<close>, then
  \<^verbatim>\<open>attempts[0]\<close>.\<close>

definition select_attempt :: "attempts_table \<Rightarrow> string \<Rightarrow> attempt_row option" where
  "select_attempt rows ip = find (\<lambda>r. db_identifier r = ip) rows"

text \<open>\<^verbatim>\<open>insert(...).values({identifier, count: 1, expiresAt}).onConflictDoUpdate({target:
  identifier, set: {count: 1, expiresAt}})\<close>.\<close>

definition upsert_attempt :: "attempts_table \<Rightarrow> string \<Rightarrow> Date \<Rightarrow> attempts_table" where
  "upsert_attempt rows ip newExpiry =
     (if list_ex (\<lambda>r. db_identifier r = ip) rows
      then map (\<lambda>r. if db_identifier r = ip then r\<lparr>db_count := 1, expiresAt := newExpiry\<rparr> else r) rows
      else rows @ [\<lparr>db_identifier = ip, db_count = 1, expiresAt = newExpiry\<rparr>])"

text \<open>\<^verbatim>\<open>update(rateLimitAttempts).set({count: count + 1}).where(eq(identifier, ip))\<close>.\<close>

definition increment_attempt :: "attempts_table \<Rightarrow> string \<Rightarrow> attempts_table" where
  "increment_attempt rows ip =
     map (\<lambda>r. if db_identifier r = ip then r\<lparr>db_count := db_count r + 1\<rparr> else r) rows"

text \<open>\<^verbatim>\<open>checkRateLimitDB(ip, limit, windowMs)\<close>; \<open>now\<close> is \<^verbatim>\<open>new Date()\<close>. The outcome is the
  returned object or the exception of the statement that threw, together with the table the
  call leaves.\<close>

definition checkRateLimitDB ::
  "(db_op \<Rightarrow> bool) \<Rightarrow> attempts_table \<Rightarrow> string \<Rightarrow> int \<Rightarrow> int \<Rightarrow> Date
     \<Rightarrow> (exn + Date rl_result) \<times> attempts_table" where
  "checkRateLimitDB fails rows ip limit windowMs now =
     (if fails SelectAttempt then (Inl DbError, rows)
      else
        let currentAttempt = select_attempt rows ip;
            newExpiry = Date (getTime now + windowMs);
            reset =
              (if fails UpsertAttempt then (Inl DbError, rows)
               else (Inr \<lparr>allowed = True, remaining = limit - 1, res_resetTime = newExpiry\<rparr>,
                     upsert_attempt rows ip newExpiry))
        in case currentAttempt of
             None \<Rightarrow> reset
           | Some a \<Rightarrow>
               if getTime (expiresAt a) < getTime now then reset
               else if db_count a \<ge> limit then
                 (Inr \<lparr>allowed = False, remaining = 0, res_resetTime = expiresAt a\<rparr>, rows)
               else if fails UpdateAttempt then (Inl DbError, rows)
               else
                 (Inr \<lparr>allowed = True, remaining = limit - (db_count a + 1),
                       res_resetTime = expiresAt a\<rparr>,
                  increment_attempt rows ip))"

text \<open>A sequence of calls of the database limiter with one limit and one window; each
  call comes with the statements that throw during it, the identifier and the clock reading.
  A call that throws leaves the table as the failed statement found it.\<close>

type_synonym db_call = "(db_op \<Rightarrow> bool) \<times> string \<times> int"

fun db_results ::
  "int \<Rightarrow> int \<Rightarrow> attempts_table \<Rightarrow> db_call list \<Rightarrow> (exn + Date rl_result) list" where
  "db_results limit windowMs rows [] = []"
| "db_results limit windowMs rows ((f, ip, now) # cs) =
     fst (checkRateLimitDB f rows ip limit windowMs (Date now))
       # db_results limit windowMs (snd (checkRateLimitDB f rows ip limit windowMs (Date now))) cs"

fun db_table :: "int \<Rightarrow> int \<Rightarrow> attempts_table \<Rightarrow> db_call list \<Rightarrow> attempts_table" where
  "db_table limit windowMs rows [] = rows"
| "db_table limit windowMs rows ((f, ip, now) # cs) =
     db_table limit windowMs (snd (checkRateLimitDB f rows ip limit windowMs (Date now))) cs"

text \<open>The calls of a sequence, each with every database statement succeeding.\<close>

definition succeeding :: "(string \<times> int) list \<Rightarrow> db_call list" where
  "succeeding calls = map (\<lambda>(ip, now). (no_faults, ip, now)) calls"

section \<open>Strings\<close>

text \<open>Strings are lists of characters with codes below 256 (the Latin-1 range of the code
  units of a JavaScript string); the string methods the handlers use are written out on
  them.\<close>

fun startsWith :: "string \<Rightarrow> string \<Rightarrow> bool" where
  "startsWith s [] = True"
| "startsWith [] (p # ps) = False"
| "startsWith (c # cs) (p # ps) = (c = p \<and> startsWith cs ps)"

definition endsWith :: "string \<Rightarrow> string \<Rightarrow> bool" where
  "endsWith s suffix = startsWith (rev s) (rev suffix)"

text \<open>\<^verbatim>\<open>s.split(sep)\<close> for a one-character separator: the pieces between the separators,
  \<^verbatim>\<open>[""]\<close> for the empty string.\<close>

fun split_acc :: "char \<Rightarrow> string \<Rightarrow> string \<Rightarrow> string list" where
  "split_acc sep acc [] = [rev acc]"
| "split_acc sep acc (c # cs) =
     (if c = sep then rev acc # split_acc sep [] cs else split_acc sep (c # acc) cs)"

definition split :: "string \<Rightarrow> char \<Rightarrow> string list" where
  "split s sep = split_acc sep [] s"

definition is_upper :: "char \<Rightarrow> bool" where
  "is_upper c = (65 \<le> (of_char c :: nat) \<and> (of_char c :: nat) \<le> 90)"

definition is_lower :: "char \<Rightarrow> bool" where
  "is_lower c = (97 \<le> (of_char c :: nat) \<and> (of_char c :: nat) \<le> 122)"

text \<open>\<^verbatim>\<open>toLowerCase()\<close> changes the upper-case letters: A to Z and, beyond ASCII, the
  letters with codes 192 to 222 except the multiplication sign (215); each moves up by 32.\<close>

definition is_upper_latin :: "char \<Rightarrow> bool" where
  "is_upper_latin c =
     (is_upper c \<or> (192 \<le> (of_char c :: nat) \<and> (of_char c :: nat) \<le> 214)
        \<or> (216 \<le> (of_char c :: nat) \<and> (of_char c :: nat) \<le> 222))"

definition toLowerChar :: "char \<Rightarrow> char" where
  "toLowerChar c = (if is_upper_latin c then char_of ((of_char c :: nat) + 32) else c)"

definition toLowerCase :: "string \<Rightarrow> string" where
  "toLowerCase s = map toLowerChar s"

text \<open>The white space \<^verbatim>\<open>trim()\<close> strips, as far as it lies in the 8-bit range: tab, line
  feed, vertical tab, form feed, carriage return, space and no-break space.\<close>

definition is_space :: "char \<Rightarrow> bool" where
  "is_space c = ((of_char c :: nat) \<in> {9, 10, 11, 12, 13, 32, 160})"

definition trim :: "string \<Rightarrow> string" where
  "trim s = rev (dropWhile is_space (rev (dropWhile is_space s)))"

text \<open>JavaScript's \<^verbatim>\<open>a || d\<close> for \<open>a\<close> a string or null and \<open>d\<close> a string: null and the
  empty string are falsy.\<close>

fun js_or :: "string option \<Rightarrow> string \<Rightarrow> string" where
  "js_or (Some (c # cs)) d = c # cs"
| "js_or (Some []) d = d"
| "js_or None d = d"

fun truthy :: "string option \<Rightarrow> bool" where
  "truthy (Some (c # cs)) = True"
| "truthy (Some []) = False"
| "truthy None = False"

text \<open>\<^verbatim>\<open>Math.ceil(x / d)\<close> for integers \<open>x\<close> and a positive integer \<open>d\<close>.\<close>

definition ceil_div :: "int \<Rightarrow> int \<Rightarrow> int" where
  "ceil_div x d = - ((- x) div d)"

section \<open>The email schema\<close>

text \<open>A parsed JSON value; an object lists its members, each key once.\<close>

datatype json =
    JNull
  | JBool bool
  | JNumber int
  | JString string
  | JArray "json list"
  | JObject "(string \<times> json) list"

definition ALLOWED_DOMAINS :: "string list" where
  "ALLOWED_DOMAINS = [''gmail.com'', ''outlook.com'', ''yahoo.com'', ''proton.me'']"

text \<open>\<^verbatim>\<open>const [, domain] = email.split("@")\<close>: the second piece, undefined when there is
  none.\<close>

definition domain_of :: "string \<Rightarrow> string option" where
  "domain_of email = (case split email CHR ''@'' of _ # domain # _ \<Rightarrow> Some domain | _ \<Rightarrow> None)"

text \<open>\<^verbatim>\<open>ALLOWED_DOMAINS.some(allowed => domain === allowed || domain.endsWith(`.${allowed}`))\<close>\<close>

definition domain_allowed :: "string \<Rightarrow> bool" where
  "domain_allowed domain =
     list_ex (\<lambda>allowed. domain = allowed \<or> endsWith domain (''.'' @ allowed)) ALLOWED_DOMAINS"

text \<open>\<^verbatim>\<open>/^[a-z]{2,63}$/i.test(tld)\<close>: between 2 and 63 characters, each an ASCII letter of
  either case.\<close>

definition tld_test :: "string \<Rightarrow> bool" where
  "tld_test tld =
     (2 \<le> length tld \<and> length tld \<le> 63 \<and> list_all (\<lambda>c. is_lower c \<or> is_upper c) tld)"

text \<open>The callback given to \<^verbatim>\<open>.refine\<close>.\<close>

definition refine_email :: "string \<Rightarrow> bool" where
  "refine_email email =
     (case domain_of email of
        None \<Rightarrow> False
      | Some domain \<Rightarrow>
          if domain = [] then False
          else if \<not> domain_allowed domain then False
          else
            let labels = split domain CHR ''.'' in
            if length labels < 2 \<or> length labels > 3 then False
            else tld_test (last labels))"

text \<open>An issue of a failed parse: a type mismatch reported by the library, or a check of
  the schema with the message the source gives it.\<close>

datatype issue = InvalidType | Custom string

text \<open>\<^verbatim>\<open>emailSchema.safeParse(body)\<close>. The schema is an object with one key, \<^verbatim>\<open>email\<close>, a
  string that passes the library's \<^verbatim>\<open>.email()\<close> check and the refinement. The library's
  email pattern is not part of the repository and is the parameter \<open>isEmail\<close>; the message
  of the refinement differs between the two route files and is the parameter \<open>msg\<close>.\<close>

definition emailSchema_safeParse :: "(string \<Rightarrow> bool) \<Rightarrow> string \<Rightarrow> json \<Rightarrow> issue list + string" where
  "emailSchema_safeParse isEmail msg body =
     (case body of
        JObject props \<Rightarrow>
          (case map_of props ''email'' of
             Some (JString email) \<Rightarrow>
               (let issues =
                      (if isEmail email then [] else [Custom ''Please enter a valid email address''])
                      @ (if refine_email email then [] else [Custom msg])
                in if issues = [] then Inr email else Inl issues)
           | _ \<Rightarrow> Inl [InvalidType])
      | _ \<Rightarrow> Inl [InvalidType])"

section \<open>Requests, responses and the environment of a request\<close>

text \<open>The body of a request: none at all, a text that does not parse as JSON, or the value
  the text parses to.\<close>

datatype payload = NoBody | NotJson | Json json

text \<open>What the handlers and the middleware read of a request: the headers (looked up by
  lower-case name), the body, whether the body has been consumed, and for the middleware the
  path of \<^verbatim>\<open>nextUrl\<close>, the origin of \<^verbatim>\<open>request.url\<close> and \<^verbatim>\<open>request.ip\<close>.\<close>

record request =
  headers :: "string \<rightharpoonup> string"
  body :: payload
  bodyUsed :: bool
  pathname :: string
  origin :: string
  request_ip :: "string option"

text \<open>What a request reads from outside the program: the clock inside the rate-limit
  check, the clock when the 429 answer is built, the identifier \<^verbatim>\<open>nanoid()\<close> draws, and
  the database statements that throw.\<close>

record env =
  now_check :: int
  now_reply :: int
  nanoid :: string
  fails :: "db_op \<Rightarrow> bool"

text \<open>The \<^verbatim>\<open>error\<close> member of a response body: a fixed message, the formatted parse error
  (\<^verbatim>\<open>result.error.format()\<close>), or the message of the first issue
  (\<^verbatim>\<open>result.error.errors[0]?.message\<close>).\<close>

datatype error_payload =
    Message string
  | Formatted "issue list"
  | FirstIssue "issue option"

text \<open>\<^verbatim>\<open>NextResponse.json(body, { status })\<close> with the members the handlers put in the body.\<close>

record response =
  status :: int
  success :: bool
  error :: "error_payload option"
  retryAfter :: "int option"

record waitlist_row =
  row_id :: string
  email :: string

type_synonym waitlist_table = "waitlist_row list"

text \<open>What a handler leaves behind: the response, the limiter's state, the waitlist table
  and whether the request body was consumed.\<close>

record 's outcome =
  reply :: response
  limiter :: 's
  waitlist :: waitlist_table
  body_read :: bool

text \<open>\<^verbatim>\<open>await request.json()\<close>, with the value of \<^verbatim>\<open>request.bodyUsed\<close> afterwards. A request
  without a body has nothing to consume: the empty text does not parse, and \<^verbatim>\<open>bodyUsed\<close>
  stays false. Otherwise the call throws when the body was already consumed, and else
  consumes it and parses the text.\<close>

definition request_json :: "request \<Rightarrow> (exn + json) \<times> bool" where
  "request_json req =
     (case body req of
        NoBody \<Rightarrow> (Inl SyntaxError, False)
      | NotJson \<Rightarrow> if bodyUsed req then (Inl TypeError, True) else (Inl SyntaxError, True)
      | Json j \<Rightarrow> if bodyUsed req then (Inl TypeError, True) else (Inr j, True))"

text \<open>\<^verbatim>\<open>headers.get("x-forwarded-for") || headers.get("x-real-ip") || "anonymous"\<close>\<close>

definition client_ip :: "request \<Rightarrow> string" where
  "client_ip req =
     js_or (headers req ''x-forwarded-for'') (js_or (headers req ''x-real-ip'') ''anonymous'')"

section \<open>The waitlist handlers\<close>

text \<open>The part both route files share word for word, from the lookup of the existing
  email to the 201 response: the outcome is the response or the exception thrown, and the
  table.\<close>

definition register_email ::
  "env \<Rightarrow> waitlist_table \<Rightarrow> string \<Rightarrow> (exn + response) \<times> waitlist_table" where
  "register_email e table address =
     (if fails e SelectWaitlist then (Inl DbError, table)
      else
        case find (\<lambda>row. email row = trim (toLowerCase address)) table of
          Some existingEmail \<Rightarrow>
            (Inr \<lparr>status = 400, success = False,
                  error = Some (Message ''This email is already on the waitlist''),
                  retryAfter = None\<rparr>, table)
        | None \<Rightarrow>
            if fails e InsertWaitlist then (Inl DbError, table)
            else
              (Inr \<lparr>status = 201, success = True, error = None, retryAfter = None\<rparr>,
               table @ [\<lparr>row_id = nanoid e, email = trim (toLowerCase address)\<rparr>]))"

text \<open>The \<^verbatim>\<open>catch\<close> block of both handlers.\<close>

definition internal_error :: response where
  "internal_error =
     \<lparr>status = 500, success = False, error = Some (Message ''Internal server error''),
      retryAfter = None\<rparr>"

definition too_many_requests :: "int \<Rightarrow> response" where
  "too_many_requests seconds =
     \<lparr>status = 429, success = False,
      error = Some (Message ''Too many requests. Please wait before trying again.''),
      retryAfter = Some seconds\<rparr>"

text \<open>The \<^verbatim>\<open>try\<close> block of \<^verbatim>\<open>POST\<close> in route.ts (in-memory limiter).\<close>

definition POST_try ::
  "(string \<Rightarrow> bool) \<Rightarrow> env \<Rightarrow> rateLimitStore \<Rightarrow> waitlist_table \<Rightarrow> request
     \<Rightarrow> (exn + response) \<times> rateLimitStore \<times> waitlist_table \<times> bool" where
  "POST_try isEmail e store table req =
     (let (rateLimit, store') = checkRateLimit store (client_ip req) 3 60000 (now_check e) in
      if \<not> allowed rateLimit then
        (Inr (too_many_requests (ceil_div (res_resetTime rateLimit - now_reply e) 1000)),
         store', table, bodyUsed req)
      else
        case request_json req of
          (Inl x, used) \<Rightarrow> (Inl x, store', table, used)
        | (Inr parsed, used) \<Rightarrow>
            (case emailSchema_safeParse isEmail ''Email domain or TLD is not allowed'' parsed of
               Inl issues \<Rightarrow>
                 (Inr \<lparr>status = 400, success = False, error = Some (Formatted issues),
                       retryAfter = None\<rparr>, store', table, used)
             | Inr address \<Rightarrow>
                 (let (r, table') = register_email e table address
                  in (r, store', table', used))))"

definition POST ::
  "(string \<Rightarrow> bool) \<Rightarrow> env \<Rightarrow> rateLimitStore \<Rightarrow> waitlist_table \<Rightarrow> request
     \<Rightarrow> rateLimitStore outcome" where
  "POST isEmail e store table req =
     (case POST_try isEmail e store table req of
        (Inr r, store', table', used) \<Rightarrow>
          \<lparr>reply = r, limiter = store', waitlist = table', body_read = used\<rparr>
      | (Inl x, store', table', used) \<Rightarrow>
          \<lparr>reply = internal_error, limiter = store', waitlist = table', body_read = used\<rparr>)"

text \<open>The \<^verbatim>\<open>try\<close> block of \<^verbatim>\<open>POST\<close> in the database-backed route file.\<close>

definition POST_DB_try ::
  "(string \<Rightarrow> bool) \<Rightarrow> env \<Rightarrow> attempts_table \<Rightarrow> waitlist_table \<Rightarrow> request
     \<Rightarrow> (exn + response) \<times> attempts_table \<times> waitlist_table \<times> bool" where
  "POST_DB_try isEmail e rows table req =
     (case checkRateLimitDB (fails e) rows (client_ip req) 3 120000 (Date (now_check e)) of
        (Inl x, rows') \<Rightarrow> (Inl x, rows', table, bodyUsed req)
      | (Inr rateLimitResult, rows') \<Rightarrow>
          if \<not> allowed rateLimitResult then
            (Inr (too_many_requests
                    (ceil_div (getTime (res_resetTime rateLimitResult) - now_reply e) 1000)),
             rows', table, bodyUsed req)
          else
            (case request_json req of
               (Inl x, used) \<Rightarrow> (Inl x, rows', table, used)
             | (Inr parsed, used) \<Rightarrow>
                 (case emailSchema_safeParse isEmail ''Invalid email, please try again'' parsed of
                    Inl issues \<Rightarrow>
                      (Inr \<lparr>status = 400, success = False,
                            error = Some (FirstIssue (case issues of [] \<Rightarrow> None | i # _ \<Rightarrow> Some i)),
                            retryAfter = None\<rparr>, rows', table, used)
                  | Inr address \<Rightarrow>
                      (let (r, table') = register_email e table address
                       in (r, rows', table', used)))))"

definition POST_DB ::
  "(string \<Rightarrow> bool) \<Rightarrow> env \<Rightarrow> attempts_table \<Rightarrow> waitlist_table \<Rightarrow> request
     \<Rightarrow> attempts_table outcome" where
  "POST_DB isEmail e rows table req =
     (case POST_DB_try isEmail e rows table req of
        (Inr r, rows', table', used) \<Rightarrow>
          \<lparr>reply = r, limiter = rows', waitlist = table', body_read = used\<rparr>
      | (Inl x, rows', table', used) \<Rightarrow>
          \<lparr>reply = internal_error, limiter = rows', waitlist = table', body_read = used\<rparr>)"

text \<open>A sequence of requests served one after the other, each with its own environment:
  the waitlist table after the last one.\<close>

fun POST_all ::
  "(string \<Rightarrow> bool) \<Rightarrow> rateLimitStore \<Rightarrow> waitlist_table \<Rightarrow> (env \<times> request) list
     \<Rightarrow> waitlist_table" where
  "POST_all isEmail store table [] = table"
| "POST_all isEmail store table ((e, req) # rest) =
     POST_all isEmail (limiter (POST isEmail e store table req))
       (waitlist (POST isEmail e store table req)) rest"

fun POST_DB_all ::
  "(string \<Rightarrow> bool) \<Rightarrow> attempts_table \<Rightarrow> waitlist_table \<Rightarrow> (env \<times> request) list
     \<Rightarrow> waitlist_table" where
  "POST_DB_all isEmail rows table [] = table"
| "POST_DB_all isEmail rows table ((e, req) # rest) =
     POST_DB_all isEmail (limiter (POST_DB isEmail e rows table req))
       (waitlist (POST_DB isEmail e rows table req)) rest"

section \<open>The middleware\<close>

text \<open>What \<^verbatim>\<open>middleware\<close> returns: \<^verbatim>\<open>NextResponse.next()\<close>, \<^verbatim>\<open>NextResponse.redirect(url)\<close>, or
  a response of its own with a status, headers and the object it serialises as the body.\<close>

datatype mw_response =
    Next
  | Redirect string
  | Respond int "(string \<times> string) list" json

text \<open>\<^verbatim>\<open>middleware(request)\<close>. The limiter and \<^verbatim>\<open>getSessionCookie\<close> come from libraries that
  are not part of the repository: \<open>rejects limit token\<close> says whether
  \<^verbatim>\<open>limiter.check(limit, token)\<close> throws for this request, \<open>getSessionCookie\<close> returns the
  cookie value or null.\<close>

definition middleware ::
  "(int \<Rightarrow> string \<Rightarrow> bool) \<Rightarrow> (request \<Rightarrow> string option) \<Rightarrow> request \<Rightarrow> mw_response" where
  "middleware rejects getSessionCookie req =
     (if startsWith (pathname req) ''/api/waitlist''
         \<and> rejects 5 (''waitlist:'' @ js_or (request_ip req) (js_or (headers req ''x-forwarded-for'') ''anonymous''))
      then
        Respond 429
          [(''Content-Type'', ''application/json''), (''X-RateLimit-Limit'', ''5''),
           (''X-RateLimit-Remaining'', ''0''), (''Retry-After'', ''300'')]
          (JObject
            [(''error'', JString ''Rate limit exceeded''),
             (''message'',
              JString ''You've hit your limit for requests. Please wait before trying again.'')])
      else if startsWith (pathname req) ''/app'' \<and> \<not> truthy (getSessionCookie req) then
        Redirect (origin req @ ''/'')
      else Next)"

section \<open>Runs of the limiters\<close>

text \<open>The result of the in-memory limiter with its reset time wrapped as a \<^verbatim>\<open>Date\<close>, to
  compare it with what the database variant returns.\<close>

definition with_Date :: "int rl_result \<Rightarrow> Date rl_result" where
  "with_Date r =
     \<lparr>allowed = allowed r, remaining = remaining r, res_resetTime = Date (res_resetTime r)\<rparr>"


definition returned :: "(exn + Date rl_result) \<Rightarrow> int rl_result option" where
  "returned x =
     (case x of
        Inl _ \<Rightarrow> None
      | Inr r \<Rightarrow> Some \<lparr>allowed = allowed r, remaining = remaining r,
                       res_resetTime = getTime (res_resetTime r)\<rparr>)"



text \<open>The process as a sequence of events: calls of \<^verbatim>\<open>checkRateLimit\<close> and firings of the
  cleanup timer, each with the clock reading it sees. A run returns what the calls
  returned.\<close>

datatype event = Call string int | Cleanup int

fun event_time :: "event \<Rightarrow> int" where
  "event_time (Call ip now) = now"
| "event_time (Cleanup now) = now"

fun calls_of :: "event list \<Rightarrow> (string \<times> int) list" where
  "calls_of [] = []"
| "calls_of (Call ip now # es) = (ip, now) # calls_of es"
| "calls_of (Cleanup now # es) = calls_of es"

fun run_events :: "int \<Rightarrow> int \<Rightarrow> rateLimitStore \<Rightarrow> event list \<Rightarrow> int rl_result list" where
  "run_events limit windowMs store [] = []"
| "run_events limit windowMs store (Call ip now # es) =
     fst (checkRateLimit store ip limit windowMs now)
       # run_events limit windowMs (snd (checkRateLimit store ip limit windowMs now)) es"
| "run_events limit windowMs store (Cleanup now # es) =
     run_events limit windowMs (cleanup store now) es"

section \<open>Relating the table to the store\<close>

text \<open>The store a table stands for: each identifier is mapped to the count and the expiry
  (in milliseconds) of the row a select for it returns.\<close>

definition entry_of_row :: "attempt_row \<Rightarrow> rl_entry" where
  "entry_of_row r = \<lparr>count = db_count r, resetTime = getTime (expiresAt r)\<rparr>"

definition table_store :: "attempts_table \<Rightarrow> rateLimitStore" where
  "table_store rows = (\<lambda>k. map_option entry_of_row (select_attempt rows k))"



text \<open>A store \<open>st'\<close> is behind \<open>st\<close> at time \<open>t\<close> when it is \<open>st\<close> without some entries that
  had expired before \<open>t\<close>.\<close>

definition behind :: "int \<Rightarrow> rateLimitStore \<Rightarrow> rateLimitStore \<Rightarrow> bool" where
  "behind t st' st \<longleftrightarrow>
     (\<forall>k. st' k = st k \<or> (st' k = None \<and> (\<exists>en. st k = Some en \<and> resetTime en < t)))"

section \<open>What a request submits\<close>

text \<open>The email a request submits: the string under the key \<^verbatim>\<open>email\<close> of the JSON object
  in its body, if the body is such an object.\<close>

definition submitted_email :: "request \<Rightarrow> string option" where
  "submitted_email req =
     (case body req of
        Json (JObject props) \<Rightarrow>
          (case map_of props ''email'' of Some (JString address) \<Rightarrow> Some address | _ \<Rightarrow> None)
      | _ \<Rightarrow> None)"

text \<open>What the handlers maintain of the waitlist table: no email occurs twice and every
  email is in the form \<^verbatim>\<open>toLowerCase().trim()\<close> leaves it in.\<close>

definition waitlist_ok :: "waitlist_table \<Rightarrow> bool" where
  "waitlist_ok table \<longleftrightarrow>
     distinct (map email table) \<and> list_all (\<lambda>row. trim (toLowerCase (email row)) = email row) table"

section \<open>The store a table stands for\<close>

lemma table_store_Nil: "table_store [] = rateLimitStore_init"
  by (simp add: table_store_def rateLimitStore_init_def select_attempt_def)

lemma find_map_other:
  "k' \<noteq> k \<Longrightarrow> (\<And>r. db_identifier (f r) = db_identifier r) \<Longrightarrow>
   find (\<lambda>r. db_identifier r = k') (map (\<lambda>r. if db_identifier r = k then f r else r) rows) =
     find (\<lambda>r. db_identifier r = k') rows"
  by (induction rows) auto

lemma find_map_same:
  "(\<And>r. db_identifier (f r) = db_identifier r) \<Longrightarrow>
   find (\<lambda>r. db_identifier r = k) (map (\<lambda>r. if db_identifier r = k then f r else r) rows) =
     map_option f (find (\<lambda>r. db_identifier r = k) rows)"
  by (induction rows) auto

lemma find_append_new:
  "find P (rows @ [x]) = (case find P rows of Some r \<Rightarrow> Some r | None \<Rightarrow> if P x then Some x else None)"
  by (induction rows) auto

lemma list_ex_find: "list_ex P rows \<longleftrightarrow> find P rows \<noteq> None"
  by (induction rows) auto

lemma select_upsert:
  "select_attempt (upsert_attempt rows k d) k' =
     (if k' = k then Some \<lparr>db_identifier = k, db_count = 1, expiresAt = d\<rparr>
      else select_attempt rows k')"
proof (cases "k' = k")
  case True
  show ?thesis
  proof (cases "find (\<lambda>r. db_identifier r = k) rows")
    case None
    then show ?thesis
      by (simp add: True select_attempt_def upsert_attempt_def list_ex_find find_append_new)
  next
    case (Some a)
    then have "db_identifier a = k" by (auto simp: find_Some_iff)
    with Some show ?thesis
      by (simp add: True select_attempt_def upsert_attempt_def list_ex_find find_map_same)
  qed
next
  case False
  then show ?thesis
    by (simp add: select_attempt_def upsert_attempt_def find_map_other find_append_new
        split: option.splits)
qed

lemma select_increment:
  "select_attempt (increment_attempt rows k) k' =
     (if k' = k then map_option (\<lambda>r. r\<lparr>db_count := db_count r + 1\<rparr>) (select_attempt rows k)
      else select_attempt rows k')"
  by (simp add: select_attempt_def increment_attempt_def find_map_other find_map_same)

lemma table_store_upsert:
  "table_store (upsert_attempt rows k d) = (table_store rows)(k \<mapsto> \<lparr>count = 1, resetTime = getTime d\<rparr>)"
  by (rule ext) (simp add: table_store_def select_upsert entry_of_row_def)

lemma table_store_increment:
  "select_attempt rows k = Some a \<Longrightarrow>
   table_store (increment_attempt rows k) =
     (table_store rows)(k \<mapsto> \<lparr>count = db_count a + 1, resetTime = getTime (expiresAt a)\<rparr>)"
  by (rule ext) (simp add: table_store_def select_increment entry_of_row_def)

lemma checkRateLimitDB_sim:
  "checkRateLimitDB f rows k lmt w (Date t) = (Inr r, rows') \<Longrightarrow>
   checkRateLimit (table_store rows) k lmt w t = (r0, st') \<Longrightarrow>
   r = with_Date r0 \<and> table_store rows' = st'"
  by (auto simp: checkRateLimitDB_def checkRateLimit_def start_window_def
      with_Date_def Let_def table_store_upsert table_store_increment
      table_store_def[THEN fun_cong] entry_of_row_def
      split: option.splits if_splits)

lemma checkRateLimitDB_no_faults:
  "\<exists>r rows'. checkRateLimitDB no_faults rows k lmt w d = (Inr r, rows')"
  by (auto simp: checkRateLimitDB_def no_faults_def Let_def split: option.splits)

lemma checkRateLimitDB_returned:
  assumes "fst (checkRateLimitDB f rows k lmt w (Date t)) = Inr r"
  shows "r = with_Date (fst (checkRateLimit (table_store rows) k lmt w t))"
    and "table_store (snd (checkRateLimitDB f rows k lmt w (Date t))) =
           snd (checkRateLimit (table_store rows) k lmt w t)"
  using assms checkRateLimitDB_sim[of f rows k lmt w t r]
  by (metis fst_conv snd_conv prod.collapse)+

lemma checkRateLimitDB_fst:
  "fst (checkRateLimitDB no_faults rows k lmt w (Date t)) =
     Inr (with_Date (fst (checkRateLimit (table_store rows) k lmt w t)))"
  using checkRateLimitDB_no_faults[of rows k lmt w "Date t"] checkRateLimitDB_returned(1)
  by (metis fst_conv)

lemma checkRateLimitDB_snd:
  "table_store (snd (checkRateLimitDB no_faults rows k lmt w (Date t))) =
     snd (checkRateLimit (table_store rows) k lmt w t)"
  using checkRateLimitDB_no_faults[of rows k lmt w "Date t"] checkRateLimitDB_returned(2)
  by (metis fst_conv)

lemma db_results_sim:
  "db_results lmt w rows (succeeding calls) =
     map (\<lambda>r. Inr (with_Date r)) (mem_results lmt w (table_store rows) calls)"
proof (induction calls arbitrary: rows)
  case Nil
  show ?case by (simp add: succeeding_def)
next
  case (Cons c calls)
  obtain k t where c: "c = (k, t)" by (cases c)
  have "succeeding (c # calls) = (no_faults, k, t) # succeeding calls"
    by (simp add: succeeding_def c)
  then show ?case
    by (simp add: c Cons.IH checkRateLimitDB_fst checkRateLimitDB_snd)
qed

lemma db_table_sim:
  "table_store (db_table lmt w rows (succeeding calls)) = mem_store lmt w (table_store rows) calls"
proof (induction calls arbitrary: rows)
  case Nil
  show ?case by (simp add: succeeding_def)
next
  case (Cons c calls)
  obtain k t where c: "c = (k, t)" by (cases c)
  have "succeeding (c # calls) = (no_faults, k, t) # succeeding calls"
    by (simp add: succeeding_def c)
  then show ?case
    by (simp add: c Cons.IH checkRateLimitDB_snd)
qed

section \<open>Windows of the in-memory limiter\<close>





lemma check_other: "k' \<noteq> k \<Longrightarrow> snd (checkRateLimit st k lmt w t) k' = st k'"
  by (simp add: checkRateLimit_def start_window_def Let_def split: option.splits)

lemma check_new:
  "st k = None \<Longrightarrow> checkRateLimit st k lmt w t = start_window st k lmt w t"
  by (simp add: checkRateLimit_def)

lemma check_expired:
  "st k = Some en \<Longrightarrow> resetTime en < t \<Longrightarrow>
   checkRateLimit st k lmt w t = start_window st k lmt w t"
  by (simp add: checkRateLimit_def)












lemma check_denied_unchanged:
  "\<not> allowed (fst (checkRateLimit st k lmt w t)) \<Longrightarrow> snd (checkRateLimit st k lmt w t) = st"
  by (auto simp: checkRateLimit_def start_window_def Let_def split: option.splits if_splits)

lemma checkDB_denied_unchanged:
  "fst (checkRateLimitDB f rows k lmt w d) = Inr r \<Longrightarrow> \<not> allowed r \<Longrightarrow>
   snd (checkRateLimitDB f rows k lmt w d) = rows"
  by (auto simp: checkRateLimitDB_def Let_def split: option.splits if_splits)


section \<open>Runs of the database limiter and of the cleanup timer\<close>

lemma returned_with_Date: "returned (Inr (with_Date r)) = Some r"
  by (simp add: returned_def with_Date_def)












lemma db_table_append:
  "db_table lmt w rows (cs @ [(f, k, t)]) =
     snd (checkRateLimitDB f (db_table lmt w rows cs) k lmt w (Date t))"
proof (induction cs arbitrary: rows)
  case Nil
  show ?case by simp
next
  case (Cons c cs)
  obtain f' k' t' where c: "c = (f', k', t')" by (cases c)
  show ?case by (simp add: c Cons.IH)
qed


lemma behind_refl: "behind t st st"
  by (simp add: behind_def)

lemma behind_mono: "behind t st' st \<Longrightarrow> t \<le> t' \<Longrightarrow> behind t' st' st"
  unfolding behind_def by (meson less_le_trans)

lemma behind_cleanup:
  assumes "behind t st' st" "t \<le> t'"
  shows "behind t' (cleanup st' t') st"
  unfolding behind_def
proof
  fix k
  from assms have k: "st' k = st k \<or> (st' k = None \<and> (\<exists>en. st k = Some en \<and> resetTime en < t'))"
    unfolding behind_def by (meson less_le_trans)
  show "cleanup st' t' k = st k \<or> cleanup st' t' k = None \<and> (\<exists>en. st k = Some en \<and> resetTime en < t')"
  proof (cases "st' k")
    case None
    with k show ?thesis by (auto simp: cleanup_def)
  next
    case (Some en)
    with k have "st k = Some en" by auto
    with Some show ?thesis by (simp add: cleanup_def)
  qed
qed

lemma behind_check:
  assumes "behind t st' st" "t \<le> now"
  shows "fst (checkRateLimit st' k lmt w now) = fst (checkRateLimit st k lmt w now)"
    and "behind now (snd (checkRateLimit st' k lmt w now)) (snd (checkRateLimit st k lmt w now))"
proof -
  have later: "behind now st' st" using assms by (rule behind_mono)
  have both: "fst (checkRateLimit st' k lmt w now) = fst (checkRateLimit st k lmt w now)
      \<and> snd (checkRateLimit st' k lmt w now) k = snd (checkRateLimit st k lmt w now) k"
  proof (cases "st' k = st k")
    case True
    then show ?thesis
      by (cases "st k") (simp_all add: checkRateLimit_def start_window_def Let_def)
  next
    case False
    with later obtain en where "st' k = None" "st k = Some en" "resetTime en < now"
      by (auto simp: behind_def)
    then show ?thesis
      by (simp add: check_new check_expired start_window_def)
  qed
  then show "fst (checkRateLimit st' k lmt w now) = fst (checkRateLimit st k lmt w now)" ..
  show "behind now (snd (checkRateLimit st' k lmt w now)) (snd (checkRateLimit st k lmt w now))"
    unfolding behind_def
  proof
    fix k'
    show "snd (checkRateLimit st' k lmt w now) k' = snd (checkRateLimit st k lmt w now) k' \<or>
          snd (checkRateLimit st' k lmt w now) k' = None \<and>
          (\<exists>en. snd (checkRateLimit st k lmt w now) k' = Some en \<and> resetTime en < now)"
    proof (cases "k' = k")
      case True
      with both show ?thesis by simp
    next
      case False
      with later show ?thesis by (simp add: check_other behind_def)
    qed
  qed
qed

lemma run_events_behind:
  "behind t st' st \<Longrightarrow> sorted (t # map event_time es) \<Longrightarrow>
   run_events lmt w st' es = mem_results lmt w st (calls_of es)"
proof (induction es arbitrary: t st' st)
  case Nil
  show ?case by simp
next
  case (Cons e es)
  show ?case
  proof (cases e)
    case (Call k now)
    from Cons.prems have le: "t \<le> now" and sorted: "sorted (now # map event_time es)"
      by (simp_all add: Call)
    from behind_check[OF Cons.prems(1) le] Cons.IH[OF _ sorted] show ?thesis
      by (simp add: Call)
  next
    case (Cleanup now)
    from Cons.prems have le: "t \<le> now" and sorted: "sorted (now # map event_time es)"
      by (simp_all add: Cleanup)
    from Cons.IH[OF behind_cleanup[OF Cons.prems(1) le] sorted] show ?thesis
      by (simp add: Cleanup)
  qed
qed

lemma run_events_sorted:
  assumes "sorted (map event_time es)"
  shows "run_events lmt w st es = mem_results lmt w st (calls_of es)"
proof (cases es)
  case Nil
  then show ?thesis by simp
next
  case (Cons e es')
  have "sorted (event_time e # map event_time es)"
    using assms by (simp add: Cons)
  from run_events_behind[OF behind_refl this] show ?thesis .
qed

section \<open>Denials in the handlers and the middleware\<close>

lemma ceil_div_ceiling: "ceil_div x 1000 = \<lceil>real_of_int x / 1000\<rceil>"
  using ceiling_divide_eq_div[where 'a = real, of x 1000] by (simp add: ceil_div_def)

lemma startsWith_iff: "startsWith s p \<longleftrightarrow> (\<exists>r. s = p @ r)"
  by (induction s p rule: startsWith.induct) auto

lemma app_not_waitlist: "startsWith s ''/app'' \<Longrightarrow> \<not> startsWith s ''/api/waitlist''"
  by (auto simp: startsWith_iff)

lemma middleware_app:
  "startsWith (pathname req) ''/app'' \<Longrightarrow>
   middleware rejects gsc req = (if truthy (gsc req) then Next else Redirect (origin req @ ''/''))"
  by (simp add: middleware_def app_not_waitlist)

lemma POST_denied:
  assumes "\<not> allowed (fst (checkRateLimit store (client_ip req) 3 60000 (now_check e)))"
  shows "POST isEmail e store table req =
     \<lparr>reply = too_many_requests
        (ceil_div (res_resetTime (fst (checkRateLimit store (client_ip req) 3 60000 (now_check e)))
                    - now_reply e) 1000),
      limiter = store, waitlist = table, body_read = bodyUsed req\<rparr>"
  using assms check_denied_unchanged[OF assms]
  by (simp add: POST_def POST_try_def split_beta)

lemma POST_DB_denied:
  assumes "fst (checkRateLimitDB (fails e) rows (client_ip req) 3 120000 (Date (now_check e))) = Inr r"
    and "\<not> allowed r"
  shows "POST_DB isEmail e rows table req =
     \<lparr>reply = too_many_requests (ceil_div (getTime (res_resetTime r) - now_reply e) 1000),
      limiter = rows, waitlist = table, body_read = bodyUsed req\<rparr>"
  using assms checkDB_denied_unchanged[OF assms]
  by (cases "checkRateLimitDB (fails e) rows (client_ip req) 3 120000 (Date (now_check e))")
     (simp add: POST_DB_def POST_DB_try_def)

lemma denied_reset:
  "\<not> allowed (fst (checkRateLimit store k lmt w t)) \<Longrightarrow>
   \<exists>en. store k = Some en \<and> t \<le> resetTime en \<and> lmt \<le> count en
      \<and> res_resetTime (fst (checkRateLimit store k lmt w t)) = resetTime en"
  by (auto simp: checkRateLimit_def start_window_def Let_def split: option.splits if_splits)

lemma deniedDB_reset:
  "fst (checkRateLimitDB f rows k lmt w d) = Inr r \<Longrightarrow> \<not> allowed r \<Longrightarrow>
   \<exists>a. select_attempt rows k = Some a \<and> getTime d \<le> getTime (expiresAt a) \<and> lmt \<le> db_count a
      \<and> res_resetTime r = expiresAt a"
  by (auto simp: checkRateLimitDB_def Let_def split: option.splits if_splits)

lemma register_email_cases:
  "register_email e table address = (out, table') \<Longrightarrow>
     (out = Inl DbError \<and> table' = table)
   \<or> (out = Inr \<lparr>status = 400, success = False,
                  error = Some (Message ''This email is already on the waitlist''),
                  retryAfter = None\<rparr> \<and> table' = table
       \<and> (\<exists>row \<in> set table. email row = trim (toLowerCase address)))
   \<or> (out = Inr \<lparr>status = 201, success = True, error = None, retryAfter = None\<rparr>
       \<and> table' = table @ [\<lparr>row_id = nanoid e, email = trim (toLowerCase address)\<rparr>]
       \<and> (\<forall>row \<in> set table. email row \<noteq> trim (toLowerCase address)))"
  by (auto simp: register_email_def find_None_iff find_Some_iff split: if_splits option.splits)

lemma POST_status_429:
  "status (reply (POST isEmail e store table req)) = 429 \<longleftrightarrow>
     \<not> allowed (fst (checkRateLimit store (client_ip req) 3 60000 (now_check e)))"
  by (auto simp: POST_def POST_try_def split_beta too_many_requests_def internal_error_def
      register_email_def request_json_def split: sum.splits option.splits if_splits prod.splits payload.splits)

lemma POST_DB_status_429:
  "status (reply (POST_DB isEmail e rows table req)) = 429 \<longleftrightarrow>
     (\<exists>r. fst (checkRateLimitDB (fails e) rows (client_ip req) 3 120000 (Date (now_check e))) = Inr r
          \<and> \<not> allowed r)"
  by (auto simp: POST_DB_def POST_DB_try_def split_beta too_many_requests_def internal_error_def
      register_email_def request_json_def split: sum.splits option.splits if_splits prod.splits payload.splits)

section \<open>The two limiters compared\<close>

text \<open>
  C1. The POST handler of route.ts answers 429 exactly when \<^verbatim>\<open>checkRateLimit(ip, 3, 60000)\<close>
  denies, the database-backed handler exactly when \<^verbatim>\<open>checkRateLimitDB(ip, 3, 120000)\<close>
  returns a denial. Called with these parameters the two limiters decide differently on some
  sequence of timed requests from one address. Called with the same identifier, limit and
  window at the same clock readings, starting from an empty store and an empty table (and
  with every database statement succeeding), the database limiter returns on every sequence
  of calls exactly what the in-memory limiter returns: the same \<^verbatim>\<open>allowed\<close>, the same
  \<^verbatim>\<open>remaining\<close>, and the \<^verbatim>\<open>Date\<close> of the same reset time.
\<close>

theorem limiters_diverge_yet_agree:
  "(\<forall>isEmail e store table req.
      status (reply (POST isEmail e store table req)) = 429 \<longleftrightarrow>
        \<not> allowed (fst (checkRateLimit store (client_ip req) 3 60000 (now_check e))))
   \<and> (\<forall>isEmail e rows table req.
      status (reply (POST_DB isEmail e rows table req)) = 429 \<longleftrightarrow>
        (\<exists>r. fst (checkRateLimitDB (fails e) rows (client_ip req) 3 120000 (Date (now_check e))) = Inr r
             \<and> \<not> allowed r))
   \<and> (\<exists>address times.
        map (map_option allowed \<circ> returned) (db_results 3 120000 [] (succeeding (map (Pair address) times)))
          \<noteq> map (Some \<circ> allowed) (mem_results 3 60000 rateLimitStore_init (map (Pair address) times)))
   \<and> (\<forall>limit windowMs calls.
        db_results limit windowMs [] (succeeding calls)
          = map (\<lambda>r. Inr (with_Date r)) (mem_results limit windowMs rateLimitStore_init calls))"
proof (intro conjI allI)
  show "\<exists>address times.
        map (map_option allowed \<circ> returned) (db_results 3 120000 [] (succeeding (map (Pair address) times)))
          \<noteq> map (Some \<circ> allowed) (mem_results 3 60000 rateLimitStore_init (map (Pair address) times))"
  proof (intro exI)
    show "map (map_option allowed \<circ> returned)
            (db_results 3 120000 [] (succeeding (map (Pair ''203.0.113.7'') [0, 1, 2, 70000])))
          \<noteq> map (Some \<circ> allowed)
            (mem_results 3 60000 rateLimitStore_init (map (Pair ''203.0.113.7'') [0, 1, 2, 70000]))"
      by (simp add: succeeding_def checkRateLimitDB_def no_faults_def select_attempt_def
          upsert_attempt_def increment_attempt_def returned_def Let_def checkRateLimit_def
          start_window_def rateLimitStore_init_def)
  qed
next
  fix limit windowMs calls
  show "db_results limit windowMs [] (succeeding calls)
          = map (\<lambda>r. Inr (with_Date r)) (mem_results limit windowMs rateLimitStore_init calls)"
    by (simp add: db_results_sim table_store_Nil)
qed (rule POST_status_429 POST_DB_status_429)+

theorem limiters_diverge_yet_agree_witness:
  "db_results 3 60000 [] (succeeding [(''203.0.113.7'', 0), (''203.0.113.7'', 1), (''198.51.100.2'', 5)])
     = map (\<lambda>r. Inr (with_Date r))
         (mem_results 3 60000 rateLimitStore_init
            [(''203.0.113.7'', 0), (''203.0.113.7'', 1), (''198.51.100.2'', 5)])"
  using limiters_diverge_yet_agree by blast

section \<open>Normalised emails\<close>

lemma toLowerChar_idem: "toLowerChar (toLowerChar c) = toLowerChar c"
  by (auto simp: toLowerChar_def is_upper_latin_def is_upper_def)

lemma is_space_toLowerChar: "is_space (toLowerChar c) = is_space c"
  by (auto simp: toLowerChar_def is_upper_latin_def is_upper_def is_space_def)

lemma toLowerCase_idem: "toLowerCase (toLowerCase s) = toLowerCase s"
  by (simp add: toLowerCase_def toLowerChar_idem)

lemma dropWhile_toLowerCase:
  "dropWhile is_space (toLowerCase s) = toLowerCase (dropWhile is_space s)"
  by (induction s) (simp_all add: toLowerCase_def is_space_toLowerChar)

lemma toLowerCase_rev: "toLowerCase (rev s) = rev (toLowerCase s)"
  by (simp add: toLowerCase_def rev_map)

lemma trim_toLowerCase: "trim (toLowerCase s) = toLowerCase (trim s)"
  by (simp add: trim_def dropWhile_toLowerCase toLowerCase_rev[symmetric])

lemma dropWhile_rev_dropWhile:
  "dropWhile P (rev (dropWhile P (rev (dropWhile P s)))) = rev (dropWhile P (rev (dropWhile P s)))"
proof (cases "dropWhile P s")
  case Nil
  have "dropWhile P (rev (dropWhile P (rev []))) = rev (dropWhile P (rev []))" by simp
  then show ?thesis unfolding Nil .
next
  case (Cons x xs)
  then have nP: "\<not> P x" by (metis hd_dropWhile list.distinct(1) list.sel(1))
  have "dropWhile P (rev (x # xs)) = dropWhile P (rev xs) @ [x]"
    using nP by (simp add: dropWhile_append)
  then have "rev (dropWhile P (rev (x # xs))) = x # rev (dropWhile P (rev xs))"
    by simp
  with nP show ?thesis by (simp add: Cons)
qed

lemma trim_idem: "trim (trim s) = trim s"
  by (simp add: trim_def dropWhile_rev_dropWhile)

lemma normalize_idem: "trim (toLowerCase (trim (toLowerCase s))) = trim (toLowerCase s)"
  by (simp add: trim_toLowerCase toLowerCase_idem trim_idem)

lemma register_email_ok:
  "waitlist_ok table \<Longrightarrow> waitlist_ok (snd (register_email e table address))"
  by (auto simp: register_email_def waitlist_ok_def normalize_idem find_None_iff
      split: option.splits)

lemma POST_waitlist:
  "waitlist (POST isEmail e store table req) = table \<or>
   (\<exists>j address. body req = Json j
       \<and> emailSchema_safeParse isEmail ''Email domain or TLD is not allowed'' j = Inr address
       \<and> waitlist (POST isEmail e store table req) = snd (register_email e table address))"
  by (auto simp: POST_def POST_try_def split_beta request_json_def
      split: sum.splits option.splits if_splits prod.splits payload.splits)

lemma POST_DB_waitlist:
  "waitlist (POST_DB isEmail e rows table req) = table \<or>
   (\<exists>j address. body req = Json j
       \<and> emailSchema_safeParse isEmail ''Invalid email, please try again'' j = Inr address
       \<and> waitlist (POST_DB isEmail e rows table req) = snd (register_email e table address))"
  by (auto simp: POST_DB_def POST_DB_try_def split_beta request_json_def
      split: sum.splits option.splits if_splits prod.splits payload.splits)

lemma POST_ok: "waitlist_ok table \<Longrightarrow> waitlist_ok (waitlist (POST isEmail e store table req))"
  using POST_waitlist[of isEmail e store table req] by (auto simp: register_email_ok)

lemma POST_DB_ok: "waitlist_ok table \<Longrightarrow> waitlist_ok (waitlist (POST_DB isEmail e rows table req))"
  using POST_DB_waitlist[of isEmail e rows table req] by (auto simp: register_email_ok)

lemma POST_all_ok: "waitlist_ok table \<Longrightarrow> waitlist_ok (POST_all isEmail store table reqs)"
proof (induction reqs arbitrary: store table)
  case Nil
  then show ?case by simp
next
  case (Cons r reqs)
  obtain e req where r: "r = (e, req)" by (cases r)
  from Cons.prems show ?case by (simp add: r Cons.IH POST_ok)
qed

lemma POST_DB_all_ok: "waitlist_ok table \<Longrightarrow> waitlist_ok (POST_DB_all isEmail rows table reqs)"
proof (induction reqs arbitrary: rows table)
  case Nil
  then show ?case by simp
next
  case (Cons r reqs)
  obtain e req where r: "r = (e, req)" by (cases r)
  from Cons.prems show ?case by (simp add: r Cons.IH POST_DB_ok)
qed

lemma waitlist_ok_distinct:
  "waitlist_ok table \<Longrightarrow> distinct (map (\<lambda>row. trim (toLowerCase (email row))) table)"
proof -
  assume ok: "waitlist_ok table"
  then have "map (\<lambda>row. trim (toLowerCase (email row))) table = map email table"
    by (auto simp: waitlist_ok_def list_all_iff)
  moreover from ok have "distinct (map email table)" by (simp add: waitlist_ok_def)
  ultimately show ?thesis by (simp only:)
qed

lemma safeParse_Inr:
  "emailSchema_safeParse isEmail msg j = Inr address \<longleftrightarrow>
     (\<exists>props. j = JObject props \<and> map_of props ''email'' = Some (JString address)
         \<and> isEmail address \<and> refine_email address)"
  by (auto simp: emailSchema_safeParse_def Let_def split: json.splits option.splits if_splits)

section \<open>Case variants of the allowed domains\<close>

lemma lower_literals:
  "toLowerCase s = ''gmail.com'' \<longleftrightarrow>
     (\<exists>c1 c2 c3 c4 c5 c6 c7 c8 c9. s = [c1, c2, c3, c4, c5, c6, c7, c8, c9]
        \<and> map toLowerChar [c1, c2, c3, c4, c5, c6, c7, c8, c9] = ''gmail.com'')"
  "toLowerCase s = ''yahoo.com'' \<longleftrightarrow>
     (\<exists>c1 c2 c3 c4 c5 c6 c7 c8 c9. s = [c1, c2, c3, c4, c5, c6, c7, c8, c9]
        \<and> map toLowerChar [c1, c2, c3, c4, c5, c6, c7, c8, c9] = ''yahoo.com'')"
  "toLowerCase s = ''proton.me'' \<longleftrightarrow>
     (\<exists>c1 c2 c3 c4 c5 c6 c7 c8 c9. s = [c1, c2, c3, c4, c5, c6, c7, c8, c9]
        \<and> map toLowerChar [c1, c2, c3, c4, c5, c6, c7, c8, c9] = ''proton.me'')"
  "toLowerCase s = ''outlook.com'' \<longleftrightarrow>
     (\<exists>c1 c2 c3 c4 c5 c6 c7 c8 c9 c10 c11. s = [c1, c2, c3, c4, c5, c6, c7, c8, c9, c10, c11]
        \<and> map toLowerChar [c1, c2, c3, c4, c5, c6, c7, c8, c9, c10, c11] = ''outlook.com'')"
  unfolding toLowerCase_def by (auto simp: map_eq_Cons_conv)

lemma toLowerChar_fixed:
  "toLowerChar CHR ''.'' = CHR ''.''" "is_lower c \<Longrightarrow> toLowerChar c = c"
  by (auto simp: toLowerChar_def is_upper_latin_def is_upper_def is_lower_def)


lemma case_variant_exact:
  assumes "a \<in> set ALLOWED_DOMAINS" "toLowerCase s = a" "s \<noteq> a"
  shows "\<not> domain_allowed s"
  using assms
  by (auto simp: ALLOWED_DOMAINS_def domain_allowed_def endsWith_def lower_literals
      toLowerChar_fixed is_lower_def)


lemma case_variant_sub:
  assumes "a \<in> set ALLOWED_DOMAINS" "toLowerCase s = a" "s \<noteq> a"
  shows "\<not> domain_allowed (p @ ''.'' @ s)"
proof -
  have ls: "length s = length a" using assms(2) by (auto simp: toLowerCase_def)
  have neq: "p @ ''.'' @ s \<noteq> a'" if "a' \<in> set ALLOWED_DOMAINS" for a'
  proof
    assume eq: "p @ ''.'' @ s = a'"
    then have "length (p @ ''.'' @ s) = length a'" by simp
    then have "length p + 1 + length a = length a'" using ls by simp
    with that assms(1) have "length p = 1" and a': "a' = ''outlook.com''"
      by (auto simp: ALLOWED_DOMAINS_def)
    then obtain x where "p = [x]" by (auto simp: length_Suc_conv)
    with eq a' show False by simp
  qed
  have ends: "\<not> endsWith (p @ ''.'' @ s) (''.'' @ a')" if "a' \<in> set ALLOWED_DOMAINS" for a'
    using that assms
    by (auto simp: ALLOWED_DOMAINS_def endsWith_def lower_literals toLowerChar_fixed is_lower_def)
  show ?thesis
    using neq ends by (auto simp: domain_allowed_def list_ex_iff)
qed

lemma letter_toLowerChar:
  "(is_lower (toLowerChar c) \<or> is_upper (toLowerChar c)) = (is_lower c \<or> is_upper c)"
  by (auto simp: toLowerChar_def is_upper_latin_def is_upper_def is_lower_def)

lemma tld_test_toLowerCase: "tld_test (toLowerCase t) = tld_test t"
  by (simp add: tld_test_def toLowerCase_def list_all_iff letter_toLowerChar)

lemma submitted_email_Some:
  "submitted_email req = Some address \<longleftrightarrow>
     (\<exists>props. body req = Json (JObject props) \<and> map_of props ''email'' = Some (JString address))"
  by (auto simp: submitted_email_def split: option.splits json.splits payload.splits)

section \<open>Admission bound\<close>




section \<open>Lazy expiry and the cleanup timer\<close>

text \<open>
  C4. When the store holds no record for an address, or one whose reset time the clock has
  passed, \<^verbatim>\<open>checkRateLimit\<close> allows the call, stores a new record with count 1 and expiry
  \<open>now + windowMs\<close>, and returns \<open>limit - 1\<close> remaining; a call that is denied found a record
  that had not expired. The cleanup keeps exactly the entries whose reset time the clock has
  not passed. Hence, when the clock readings of the events do not decrease, the calls of a run
  with cleanups in between return what they return in the run without the cleanups.
\<close>

theorem lazy_expiry:
  "((store address = None \<or> (\<exists>entry. store address = Some entry \<and> now > resetTime entry)) \<longrightarrow>
      checkRateLimit store address limit windowMs now =
        (\<lparr>allowed = True, remaining = limit - 1, res_resetTime = now + windowMs\<rparr>,
         store(address \<mapsto> \<lparr>count = 1, resetTime = now + windowMs\<rparr>)))
   \<and> (\<not> allowed (fst (checkRateLimit store address limit windowMs now)) \<longrightarrow>
        (\<exists>entry. store address = Some entry \<and> now \<le> resetTime entry))
   \<and> (\<forall>key v. cleanup store now key = Some v \<longleftrightarrow> store key = Some v \<and> \<not> now > resetTime v)
   \<and> (sorted (map event_time events) \<longrightarrow>
        run_events limit windowMs store events = mem_results limit windowMs store (calls_of events))"
proof (intro conjI)
  show "(store address = None \<or> (\<exists>entry. store address = Some entry \<and> now > resetTime entry)) \<longrightarrow>
      checkRateLimit store address limit windowMs now =
        (\<lparr>allowed = True, remaining = limit - 1, res_resetTime = now + windowMs\<rparr>,
         store(address \<mapsto> \<lparr>count = 1, resetTime = now + windowMs\<rparr>))"
    by (auto simp: check_new check_expired start_window_def)
  show "\<not> allowed (fst (checkRateLimit store address limit windowMs now)) \<longrightarrow>
        (\<exists>entry. store address = Some entry \<and> now \<le> resetTime entry)"
    using denied_reset[of store address limit windowMs now] by blast
  show "\<forall>key v. cleanup store now key = Some v \<longleftrightarrow> store key = Some v \<and> \<not> now > resetTime v"
    by (auto simp: cleanup_def split: option.splits if_splits)
  show "sorted (map event_time events) \<longrightarrow>
        run_events limit windowMs store events = mem_results limit windowMs store (calls_of events)"
    by (simp add: run_events_sorted)
qed

theorem lazy_expiry_witness:
  "sorted (map event_time [Call ''203.0.113.7'' 0, Call ''203.0.113.7'' 1, Call ''203.0.113.7'' 2,
             Cleanup 60000, Call ''203.0.113.7'' 60000, Cleanup 120000, Call ''203.0.113.7'' 120001])
   \<and> run_events 3 60000 rateLimitStore_init
        [Call ''203.0.113.7'' 0, Call ''203.0.113.7'' 1, Call ''203.0.113.7'' 2,
         Cleanup 60000, Call ''203.0.113.7'' 60000, Cleanup 120000, Call ''203.0.113.7'' 120001]
      = mem_results 3 60000 rateLimitStore_init
          [(''203.0.113.7'', 0), (''203.0.113.7'', 1), (''203.0.113.7'', 2),
           (''203.0.113.7'', 60000), (''203.0.113.7'', 120001)]
   \<and> (\<exists>entry. [''203.0.113.7'' \<mapsto> \<lparr>count = 3, resetTime = 60000\<rparr>] ''203.0.113.7'' = Some entry
          \<and> 60001 > resetTime entry)
   \<and> checkRateLimit [''203.0.113.7'' \<mapsto> \<lparr>count = 3, resetTime = 60000\<rparr>] ''203.0.113.7'' 3 60000 60001
       = (\<lparr>allowed = True, remaining = 2, res_resetTime = 120001\<rparr>,
          [''203.0.113.7'' \<mapsto> \<lparr>count = 1, resetTime = 120001\<rparr>])"
  using lazy_expiry[where store = "[''203.0.113.7'' \<mapsto> \<lparr>count = 3, resetTime = 60000\<rparr>]"
      and address = "''203.0.113.7''" and now = 60001 and limit = 3 and windowMs = 60000
      and events = "[]"]
    lazy_expiry[where store = rateLimitStore_init and limit = 3 and windowMs = 60000
      and events = "[Call ''203.0.113.7'' 0, Call ''203.0.113.7'' 1, Call ''203.0.113.7'' 2,
         Cleanup 60000, Call ''203.0.113.7'' 60000, Cleanup 120000, Call ''203.0.113.7'' 120001]"]
  by simp

section \<open>Restarts\<close>

text \<open>
  C5. A restart runs the module initialisation again, which leaves \<^verbatim>\<open>rateLimitStore\<close> empty:
  on the empty store every first call is allowed, whatever the address, the limit, the window
  and the time, and so whatever was denied before. The table is not touched by a restart,
  and it keeps the state: after any sequence of earlier calls, \<^verbatim>\<open>checkRateLimitDB\<close> on the
  table they left returns what the in-memory limiter would return on the store they left, had
  the process not been restarted. So whenever a denial is due, the restarted in-memory limiter
  allows the call and the database limiter denies it. What \<^verbatim>\<open>checkRateLimitDB\<close> returns depends
  on the table only through the row a select for the identifier returns: without a row, or
  with an expired one, it allows; with a current row it denies exactly when the count of the
  row has reached the limit.
\<close>

theorem restart_forgets_store_not_table:
  "allowed (fst (checkRateLimit rateLimitStore_init address limit windowMs now))
   \<and> fst (checkRateLimitDB no_faults (db_table limit windowMs [] (succeeding calls))
            address limit windowMs (Date now))
       = Inr (with_Date (fst (checkRateLimit (mem_store limit windowMs rateLimitStore_init calls)
                                address limit windowMs now)))
   \<and> snd (checkRateLimitDB no_faults (db_table limit windowMs [] (succeeding calls))
            address limit windowMs (Date now))
       = db_table limit windowMs [] (succeeding (calls @ [(address, now)]))
   \<and> (\<not> allowed (fst (checkRateLimit (mem_store limit windowMs rateLimitStore_init calls)
                          address limit windowMs now)) \<longrightarrow>
        allowed (fst (checkRateLimit rateLimitStore_init address limit windowMs now))
        \<and> map_option allowed (returned (fst (checkRateLimitDB no_faults
              (db_table limit windowMs [] (succeeding calls)) address limit windowMs (Date now))))
            = Some False)
   \<and> \<not> allowed (fst (checkRateLimit
          (mem_store 3 60000 rateLimitStore_init
             [(''203.0.113.7'', 0), (''203.0.113.7'', 1), (''203.0.113.7'', 2)])
          ''203.0.113.7'' 3 60000 3))
   \<and> allowed (fst (checkRateLimit rateLimitStore_init ''203.0.113.7'' 3 60000 3))
   \<and> map_option allowed (returned (fst (checkRateLimitDB no_faults
          (db_table 3 120000 []
             (succeeding [(''203.0.113.7'', 0), (''203.0.113.7'', 1), (''203.0.113.7'', 2)]))
          ''203.0.113.7'' 3 120000 (Date 3)))) = Some False
   \<and> (select_attempt rows address = select_attempt rows' address \<longrightarrow>
        fst (checkRateLimitDB f rows address limit windowMs date)
          = fst (checkRateLimitDB f rows' address limit windowMs date))
   \<and> (\<not> f SelectAttempt \<and> \<not> f UpsertAttempt \<and> \<not> f UpdateAttempt \<longrightarrow>
        map_option allowed (returned (fst (checkRateLimitDB f rows address limit windowMs date)))
          = (case select_attempt rows address of
               None \<Rightarrow> Some True
             | Some row \<Rightarrow>
                 Some (getTime (expiresAt row) < getTime date \<or> db_count row < limit)))"
proof (intro conjI)
  show "allowed (fst (checkRateLimit rateLimitStore_init address limit windowMs now))"
    by (simp add: checkRateLimit_def start_window_def rateLimitStore_init_def)
  show kept: "fst (checkRateLimitDB no_faults (db_table limit windowMs [] (succeeding calls))
            address limit windowMs (Date now))
       = Inr (with_Date (fst (checkRateLimit (mem_store limit windowMs rateLimitStore_init calls)
                                address limit windowMs now)))"
    by (simp add: checkRateLimitDB_fst db_table_sim table_store_Nil)
  show "snd (checkRateLimitDB no_faults (db_table limit windowMs [] (succeeding calls))
            address limit windowMs (Date now))
       = db_table limit windowMs [] (succeeding (calls @ [(address, now)]))"
    by (simp add: succeeding_def db_table_append)
  show "\<not> allowed (fst (checkRateLimit (mem_store limit windowMs rateLimitStore_init calls)
                          address limit windowMs now)) \<longrightarrow>
        allowed (fst (checkRateLimit rateLimitStore_init address limit windowMs now))
        \<and> map_option allowed (returned (fst (checkRateLimitDB no_faults
              (db_table limit windowMs [] (succeeding calls)) address limit windowMs (Date now))))
            = Some False"
    by (simp add: kept returned_with_Date)
      (simp add: checkRateLimit_def start_window_def rateLimitStore_init_def)
  show "\<not> allowed (fst (checkRateLimit
          (mem_store 3 60000 rateLimitStore_init
             [(''203.0.113.7'', 0), (''203.0.113.7'', 1), (''203.0.113.7'', 2)])
          ''203.0.113.7'' 3 60000 3))"
    by (simp add: checkRateLimit_def start_window_def rateLimitStore_init_def)
  show "allowed (fst (checkRateLimit rateLimitStore_init ''203.0.113.7'' 3 60000 3))"
    by (simp add: checkRateLimit_def start_window_def rateLimitStore_init_def)
  show "map_option allowed (returned (fst (checkRateLimitDB no_faults
          (db_table 3 120000 []
             (succeeding [(''203.0.113.7'', 0), (''203.0.113.7'', 1), (''203.0.113.7'', 2)]))
          ''203.0.113.7'' 3 120000 (Date 3)))) = Some False"
    by (simp add: succeeding_def checkRateLimitDB_def no_faults_def select_attempt_def
        upsert_attempt_def increment_attempt_def returned_def Let_def)
  show "select_attempt rows address = select_attempt rows' address \<longrightarrow>
        fst (checkRateLimitDB f rows address limit windowMs date)
          = fst (checkRateLimitDB f rows' address limit windowMs date)"
    by (auto simp: checkRateLimitDB_def Let_def split: option.splits)
  show "\<not> f SelectAttempt \<and> \<not> f UpsertAttempt \<and> \<not> f UpdateAttempt \<longrightarrow>
        map_option allowed (returned (fst (checkRateLimitDB f rows address limit windowMs date)))
          = (case select_attempt rows address of
               None \<Rightarrow> Some True
             | Some row \<Rightarrow>
                 Some (getTime (expiresAt row) < getTime date \<or> db_count row < limit))"
    by (auto simp: checkRateLimitDB_def returned_def Let_def split: option.splits)
qed

theorem restart_forgets_store_not_table_witness:
  "\<not> allowed (fst (checkRateLimit
        (mem_store 3 60000 rateLimitStore_init
           [(''203.0.113.7'', 0), (''203.0.113.7'', 1), (''203.0.113.7'', 2)])
        ''203.0.113.7'' 3 60000 3))
   \<and> allowed (fst (checkRateLimit rateLimitStore_init ''203.0.113.7'' 3 60000 3))
   \<and> map_option allowed (returned (fst (checkRateLimitDB no_faults
        (db_table 3 60000 []
           (succeeding [(''203.0.113.7'', 0), (''203.0.113.7'', 1), (''203.0.113.7'', 2)]))
        ''203.0.113.7'' 3 60000 (Date 3)))) = Some False
   \<and> select_attempt
       [\<lparr>db_identifier = ''203.0.113.7'', db_count = 3, expiresAt = Date 120000\<rparr>] ''203.0.113.7''
     = select_attempt
       [\<lparr>db_identifier = ''198.51.100.2'', db_count = 1, expiresAt = Date 5\<rparr>,
        \<lparr>db_identifier = ''203.0.113.7'', db_count = 3, expiresAt = Date 120000\<rparr>] ''203.0.113.7''
   \<and> fst (checkRateLimitDB no_faults
       [\<lparr>db_identifier = ''203.0.113.7'', db_count = 3, expiresAt = Date 120000\<rparr>]
       ''203.0.113.7'' 3 120000 (Date 3))
     = fst (checkRateLimitDB no_faults
       [\<lparr>db_identifier = ''198.51.100.2'', db_count = 1, expiresAt = Date 5\<rparr>,
        \<lparr>db_identifier = ''203.0.113.7'', db_count = 3, expiresAt = Date 120000\<rparr>]
       ''203.0.113.7'' 3 120000 (Date 3))
   \<and> \<not> no_faults SelectAttempt \<and> \<not> no_faults UpsertAttempt \<and> \<not> no_faults UpdateAttempt
   \<and> map_option allowed (returned (fst (checkRateLimitDB no_faults
       [\<lparr>db_identifier = ''203.0.113.7'', db_count = 3, expiresAt = Date 120000\<rparr>]
       ''203.0.113.7'' 3 120000 (Date 3)))) = Some False"
proof -
  have denied: "\<not> allowed (fst (checkRateLimit
        (mem_store 3 60000 rateLimitStore_init
           [(''203.0.113.7'', 0), (''203.0.113.7'', 1), (''203.0.113.7'', 2)])
        ''203.0.113.7'' 3 60000 3))"
    by (simp add: checkRateLimit_def start_window_def rateLimitStore_init_def)
  have survives: "allowed (fst (checkRateLimit rateLimitStore_init ''203.0.113.7'' 3 60000 3))
     \<and> map_option allowed (returned (fst (checkRateLimitDB no_faults
        (db_table 3 60000 []
           (succeeding [(''203.0.113.7'', 0), (''203.0.113.7'', 1), (''203.0.113.7'', 2)]))
        ''203.0.113.7'' 3 60000 (Date 3)))) = Some False"
    using denied
      restart_forgets_store_not_table[where address = "''203.0.113.7''" and limit = 3
        and windowMs = 60000 and now = 3
        and calls = "[(''203.0.113.7'', 0), (''203.0.113.7'', 1), (''203.0.113.7'', 2)]"]
    by blast
  have same: "select_attempt
       [\<lparr>db_identifier = ''203.0.113.7'', db_count = 3, expiresAt = Date 120000\<rparr>] ''203.0.113.7''
     = select_attempt
       [\<lparr>db_identifier = ''198.51.100.2'', db_count = 1, expiresAt = Date 5\<rparr>,
        \<lparr>db_identifier = ''203.0.113.7'', db_count = 3, expiresAt = Date 120000\<rparr>] ''203.0.113.7''"
    by (simp add: select_attempt_def)
  have row: "fst (checkRateLimitDB no_faults
       [\<lparr>db_identifier = ''203.0.113.7'', db_count = 3, expiresAt = Date 120000\<rparr>]
       ''203.0.113.7'' 3 120000 (Date 3))
     = fst (checkRateLimitDB no_faults
       [\<lparr>db_identifier = ''198.51.100.2'', db_count = 1, expiresAt = Date 5\<rparr>,
        \<lparr>db_identifier = ''203.0.113.7'', db_count = 3, expiresAt = Date 120000\<rparr>]
       ''203.0.113.7'' 3 120000 (Date 3))"
    using same
      restart_forgets_store_not_table[where address = "''203.0.113.7''" and limit = 3
        and windowMs = 120000
        and rows = "[\<lparr>db_identifier = ''203.0.113.7'', db_count = 3, expiresAt = Date 120000\<rparr>]"
        and rows' = "[\<lparr>db_identifier = ''198.51.100.2'', db_count = 1, expiresAt = Date 5\<rparr>,
          \<lparr>db_identifier = ''203.0.113.7'', db_count = 3, expiresAt = Date 120000\<rparr>]"
        and f = no_faults and date = "Date 3"]
    by blast
  have nf: "\<not> no_faults SelectAttempt \<and> \<not> no_faults UpsertAttempt \<and> \<not> no_faults UpdateAttempt"
    by (simp add: no_faults_def)
  have "map_option allowed (returned (fst (checkRateLimitDB no_faults
       [\<lparr>db_identifier = ''203.0.113.7'', db_count = 3, expiresAt = Date 120000\<rparr>]
       ''203.0.113.7'' 3 120000 (Date 3))))
     = (case select_attempt
           [\<lparr>db_identifier = ''203.0.113.7'', db_count = 3, expiresAt = Date 120000\<rparr>]
           ''203.0.113.7'' of
          None \<Rightarrow> Some True
        | Some row \<Rightarrow> Some (getTime (expiresAt row) < getTime (Date 3) \<or> db_count row < 3))"
    using nf
      restart_forgets_store_not_table[where address = "''203.0.113.7''" and limit = 3
        and windowMs = 120000
        and rows = "[\<lparr>db_identifier = ''203.0.113.7'', db_count = 3, expiresAt = Date 120000\<rparr>]"
        and f = no_faults and date = "Date 3"]
    by blast
  then have decided: "map_option allowed (returned (fst (checkRateLimitDB no_faults
       [\<lparr>db_identifier = ''203.0.113.7'', db_count = 3, expiresAt = Date 120000\<rparr>]
       ''203.0.113.7'' 3 120000 (Date 3)))) = Some False"
    by (simp add: select_attempt_def)
  from denied survives same row nf decided show ?thesis by blast
qed

section \<open>Throttled denial\<close>

text \<open>
  C3. Whenever the limiter denies the address of a waitlist POST, the handler answers with
  status 429, \<^verbatim>\<open>success: false\<close> and \<^verbatim>\<open>retryAfter\<close> the ceiling of the seconds from the clock
  reading of the reply to the reset time of the stored record; the body of the request is not
  consumed, the waitlist table is the one before, and so is the limiter's store (or table).
  The middleware, when its own limiter rejects a request under \<^verbatim>\<open>/api/waitlist\<close>, answers 429
  with the header \<^verbatim>\<open>Retry-After: 300\<close>.
\<close>

theorem throttled_denial:
  "(\<not> allowed (fst (checkRateLimit store (client_ip req) 3 60000 (now_check e))) \<longrightarrow>
      (\<exists>entry. store (client_ip req) = Some entry \<and>
         POST isEmail e store table req =
           \<lparr>reply = \<lparr>status = 429, success = False,
                      error = Some (Message ''Too many requests. Please wait before trying again.''),
                      retryAfter = Some \<lceil>real_of_int (resetTime entry - now_reply e) / 1000\<rceil>\<rparr>,
            limiter = store, waitlist = table, body_read = bodyUsed req\<rparr>))
   \<and> ((\<exists>r. fst (checkRateLimitDB (fails e) rows (client_ip req) 3 120000 (Date (now_check e))) = Inr r
           \<and> \<not> allowed r) \<longrightarrow>
      (\<exists>row. select_attempt rows (client_ip req) = Some row \<and>
         POST_DB isEmail e rows table req =
           \<lparr>reply = \<lparr>status = 429, success = False,
                      error = Some (Message ''Too many requests. Please wait before trying again.''),
                      retryAfter = Some \<lceil>real_of_int (getTime (expiresAt row) - now_reply e) / 1000\<rceil>\<rparr>,
            limiter = rows, waitlist = table, body_read = bodyUsed req\<rparr>))
   \<and> (startsWith (pathname req) ''/api/waitlist''
        \<and> rejects 5 (''waitlist:'' @ js_or (request_ip req)
                                        (js_or (headers req ''x-forwarded-for'') ''anonymous'')) \<longrightarrow>
      (\<exists>hs b. middleware rejects getSessionCookie req = Respond 429 hs b
          \<and> map_of hs ''Retry-After'' = Some ''300''))"
proof (intro conjI impI)
  assume denied: "\<not> allowed (fst (checkRateLimit store (client_ip req) 3 60000 (now_check e)))"
  from denied_reset[OF denied] obtain en where en: "store (client_ip req) = Some en"
    "res_resetTime (fst (checkRateLimit store (client_ip req) 3 60000 (now_check e))) = resetTime en"
    by blast
  show "\<exists>entry. store (client_ip req) = Some entry \<and>
         POST isEmail e store table req =
           \<lparr>reply = \<lparr>status = 429, success = False,
                      error = Some (Message ''Too many requests. Please wait before trying again.''),
                      retryAfter = Some \<lceil>real_of_int (resetTime entry - now_reply e) / 1000\<rceil>\<rparr>,
            limiter = store, waitlist = table, body_read = bodyUsed req\<rparr>"
    using en by (simp add: POST_denied[OF denied] too_many_requests_def ceil_div_ceiling)
next
  assume "\<exists>r. fst (checkRateLimitDB (fails e) rows (client_ip req) 3 120000 (Date (now_check e))) = Inr r
           \<and> \<not> allowed r"
  then obtain r where r: "fst (checkRateLimitDB (fails e) rows (client_ip req) 3 120000 (Date (now_check e))) = Inr r"
    "\<not> allowed r" by blast
  from deniedDB_reset[OF r] obtain a where a: "select_attempt rows (client_ip req) = Some a"
    "res_resetTime r = expiresAt a" by blast
  show "\<exists>row. select_attempt rows (client_ip req) = Some row \<and>
         POST_DB isEmail e rows table req =
           \<lparr>reply = \<lparr>status = 429, success = False,
                      error = Some (Message ''Too many requests. Please wait before trying again.''),
                      retryAfter = Some \<lceil>real_of_int (getTime (expiresAt row) - now_reply e) / 1000\<rceil>\<rparr>,
            limiter = rows, waitlist = table, body_read = bodyUsed req\<rparr>"
    using a by (simp add: POST_DB_denied[OF r] too_many_requests_def ceil_div_ceiling)
next
  assume "startsWith (pathname req) ''/api/waitlist''
        \<and> rejects 5 (''waitlist:'' @ js_or (request_ip req)
                                        (js_or (headers req ''x-forwarded-for'') ''anonymous''))"
  then show "\<exists>hs b. middleware rejects getSessionCookie req = Respond 429 hs b
          \<and> map_of hs ''Retry-After'' = Some ''300''"
    by (simp add: middleware_def)
qed

theorem throttled_denial_witness:
  "\<not> allowed (fst (checkRateLimit [''203.0.113.7'' \<mapsto> \<lparr>count = 3, resetTime = 60000\<rparr>]
        (client_ip \<lparr>headers = [''x-forwarded-for'' \<mapsto> ''203.0.113.7''],
                    body = Json (JObject [(''email'', JString ''user@gmail.com'')]),
                    bodyUsed = False, pathname = ''/api/waitlist/join'',
                    origin = ''https://nimbus.example'', request_ip = None\<rparr>)
        3 60000 1000))
   \<and> POST (\<lambda>s. True) \<lparr>now_check = 1000, now_reply = 1500, nanoid = ''V1StGXR8'', fails = no_faults\<rparr>
        [''203.0.113.7'' \<mapsto> \<lparr>count = 3, resetTime = 60000\<rparr>] []
        \<lparr>headers = [''x-forwarded-for'' \<mapsto> ''203.0.113.7''],
         body = Json (JObject [(''email'', JString ''user@gmail.com'')]),
         bodyUsed = False, pathname = ''/api/waitlist/join'',
         origin = ''https://nimbus.example'', request_ip = None\<rparr>
      = \<lparr>reply = \<lparr>status = 429, success = False,
                   error = Some (Message ''Too many requests. Please wait before trying again.''),
                   retryAfter = Some 59\<rparr>,
         limiter = [''203.0.113.7'' \<mapsto> \<lparr>count = 3, resetTime = 60000\<rparr>], waitlist = [],
         body_read = False\<rparr>"
proof -
  have ip: "client_ip \<lparr>headers = [''x-forwarded-for'' \<mapsto> ''203.0.113.7''],
                    body = Json (JObject [(''email'', JString ''user@gmail.com'')]),
                    bodyUsed = False, pathname = ''/api/waitlist/join'',
                    origin = ''https://nimbus.example'', request_ip = None\<rparr> = ''203.0.113.7''"
    by (simp add: client_ip_def)
  have denied: "\<not> allowed (fst (checkRateLimit [''203.0.113.7'' \<mapsto> \<lparr>count = 3, resetTime = 60000\<rparr>]
        ''203.0.113.7'' 3 60000 1000))"
    by (simp add: checkRateLimit_def)
  have "\<lceil>real_of_int (60000 - 1500) / 1000\<rceil> = 59" by simp
  with denied ip show ?thesis
    using throttled_denial[of "[''203.0.113.7'' \<mapsto> \<lparr>count = 3, resetTime = 60000\<rparr>]"
        "\<lparr>headers = [''x-forwarded-for'' \<mapsto> ''203.0.113.7''],
         body = Json (JObject [(''email'', JString ''user@gmail.com'')]),
         bodyUsed = False, pathname = ''/api/waitlist/join'',
         origin = ''https://nimbus.example'', request_ip = None\<rparr>"
        "\<lparr>now_check = 1000, now_reply = 1500, nanoid = ''V1StGXR8'', fails = no_faults\<rparr>"
        "\<lambda>s. True" "[]"]
    by simp
qed

section \<open>Session gating\<close>

text \<open>
  C6. For a request whose path starts with \<^verbatim>\<open>/app\<close> the middleware returns a redirect to
  \<^verbatim>\<open>/\<close> on the origin of the request when \<^verbatim>\<open>getSessionCookie\<close> finds no cookie, and
  \<^verbatim>\<open>NextResponse.next()\<close> when it returns one (a non-empty value); the waitlist limiter plays
  no part, since no such path starts with \<^verbatim>\<open>/api/waitlist\<close>.
\<close>

theorem session_gate:
  assumes "startsWith (pathname req) ''/app''"
  shows "(getSessionCookie req = None \<longrightarrow>
            middleware rejects getSessionCookie req = Redirect (origin req @ ''/''))
       \<and> (\<forall>cookie. getSessionCookie req = Some cookie \<and> cookie \<noteq> [] \<longrightarrow>
            middleware rejects getSessionCookie req = Next)"
proof (intro conjI impI allI)
  assume "getSessionCookie req = None"
  then show "middleware rejects getSessionCookie req = Redirect (origin req @ ''/'')"
    by (simp add: middleware_app[OF assms])
next
  fix cookie
  assume "getSessionCookie req = Some cookie \<and> cookie \<noteq> []"
  then have "truthy (getSessionCookie req)" by (cases cookie) simp_all
  then show "middleware rejects getSessionCookie req = Next"
    by (simp add: middleware_app[OF assms])
qed

theorem session_gate_witness:
  "startsWith ''/app'' ''/app''
   \<and> middleware (\<lambda>n token. True) (\<lambda>r. None)
        \<lparr>headers = Map.empty, body = NoBody, bodyUsed = False, pathname = ''/app'',
         origin = ''https://nimbus.example'', request_ip = None\<rparr>
      = Redirect ''https://nimbus.example/''
   \<and> middleware (\<lambda>n token. True) (\<lambda>r. Some ''token.signature'')
        \<lparr>headers = Map.empty, body = NoBody, bodyUsed = False, pathname = ''/app'',
         origin = ''https://nimbus.example'', request_ip = None\<rparr>
      = Next"
  using session_gate[of "\<lparr>headers = Map.empty, body = NoBody, bodyUsed = False, pathname = ''/app'',
         origin = ''https://nimbus.example'', request_ip = None\<rparr>" "\<lambda>r. None" "\<lambda>n token. True"]
    session_gate[of "\<lparr>headers = Map.empty, body = NoBody, bodyUsed = False, pathname = ''/app'',
         origin = ''https://nimbus.example'', request_ip = None\<rparr>" "\<lambda>r. Some ''token.signature''"
         "\<lambda>n token. True"]
  by simp

lemma register_email_duplicate:
  "\<not> fails e SelectWaitlist \<Longrightarrow> list_ex (\<lambda>row. email row = trim (toLowerCase address)) table \<Longrightarrow>
   register_email e table address =
     (Inr \<lparr>status = 400, success = False,
           error = Some (Message ''This email is already on the waitlist''),
           retryAfter = None\<rparr>, table)"
  by (auto simp: register_email_def list_ex_iff find_None_iff split: option.splits)

lemma register_email_snd:
  "snd (register_email e table address) = table \<or>
   (snd (register_email e table address)
      = table @ [\<lparr>row_id = nanoid e, email = trim (toLowerCase address)\<rparr>]
    \<and> \<not> list_ex (\<lambda>row. email row = trim (toLowerCase address)) table)"
  by (auto simp: register_email_def list_ex_iff find_None_iff split: option.splits)

lemma POST_accepts:
  assumes "allowed (fst (checkRateLimit store (client_ip req) 3 60000 (now_check e)))"
    and "\<not> bodyUsed req" and "submitted_email req = Some address"
    and "isEmail address" and "refine_email address"
  shows "POST_try isEmail e store table req =
     (fst (register_email e table address),
      snd (checkRateLimit store (client_ip req) 3 60000 (now_check e)),
      snd (register_email e table address), True)"
proof -
  from assms(3) obtain props where "body req = Json (JObject props)"
    "map_of props ''email'' = Some (JString address)"
    by (auto simp: submitted_email_Some)
  with assms show ?thesis
    by (simp add: POST_try_def split_beta request_json_def emailSchema_safeParse_def)
qed

lemma POST_DB_accepts:
  assumes "fst (checkRateLimitDB (fails e) rows (client_ip req) 3 120000 (Date (now_check e))) = Inr r"
    and "allowed r"
    and "\<not> bodyUsed req" and "submitted_email req = Some address"
    and "isEmail address" and "refine_email address"
  shows "POST_DB_try isEmail e rows table req =
     (fst (register_email e table address),
      snd (checkRateLimitDB (fails e) rows (client_ip req) 3 120000 (Date (now_check e))),
      snd (register_email e table address), True)"
proof -
  from assms(4) obtain props where "body req = Json (JObject props)"
    "map_of props ''email'' = Some (JString address)"
    by (auto simp: submitted_email_Some)
  with assms show ?thesis
    by (cases "checkRateLimitDB (fails e) rows (client_ip req) 3 120000 (Date (now_check e))")
       (simp add: POST_DB_try_def split_beta request_json_def emailSchema_safeParse_def)
qed

lemma POST_inserts:
  "waitlist (POST isEmail e store table req) = table \<or>
   (\<exists>address. submitted_email req = Some address
      \<and> waitlist (POST isEmail e store table req)
          = table @ [\<lparr>row_id = nanoid e, email = trim (toLowerCase address)\<rparr>]
      \<and> \<not> list_ex (\<lambda>row. email row = trim (toLowerCase address)) table)"
proof -
  from POST_waitlist[of isEmail e store table req] show ?thesis
  proof
    assume "waitlist (POST isEmail e store table req) = table"
    then show ?thesis ..
  next
    assume "\<exists>j address. body req = Json j
       \<and> emailSchema_safeParse isEmail ''Email domain or TLD is not allowed'' j = Inr address
       \<and> waitlist (POST isEmail e store table req) = snd (register_email e table address)"
    then obtain j address where a: "emailSchema_safeParse isEmail ''Email domain or TLD is not allowed'' j = Inr address"
      "body req = Json j" "waitlist (POST isEmail e store table req) = snd (register_email e table address)"
      by blast
    from a(1,2) have "submitted_email req = Some address"
      by (auto simp: safeParse_Inr submitted_email_Some)
    with a(3) register_email_snd[of e table address] show ?thesis by auto
  qed
qed

lemma POST_DB_inserts:
  "waitlist (POST_DB isEmail e rows table req) = table \<or>
   (\<exists>address. submitted_email req = Some address
      \<and> waitlist (POST_DB isEmail e rows table req)
          = table @ [\<lparr>row_id = nanoid e, email = trim (toLowerCase address)\<rparr>]
      \<and> \<not> list_ex (\<lambda>row. email row = trim (toLowerCase address)) table)"
proof -
  from POST_DB_waitlist[of isEmail e rows table req] show ?thesis
  proof
    assume "waitlist (POST_DB isEmail e rows table req) = table"
    then show ?thesis ..
  next
    assume "\<exists>j address. body req = Json j
       \<and> emailSchema_safeParse isEmail ''Invalid email, please try again'' j = Inr address
       \<and> waitlist (POST_DB isEmail e rows table req) = snd (register_email e table address)"
    then obtain j address where a: "emailSchema_safeParse isEmail ''Invalid email, please try again'' j = Inr address"
      "body req = Json j" "waitlist (POST_DB isEmail e rows table req) = snd (register_email e table address)"
      by blast
    from a(1,2) have "submitted_email req = Some address"
      by (auto simp: safeParse_Inr submitted_email_Some)
    with a(3) register_email_snd[of e table address] show ?thesis by auto
  qed
qed

lemma waitlist_ok_Nil: "waitlist_ok []"
  by (simp add: waitlist_ok_def)

section \<open>Waitlist normalisation and uniqueness\<close>

text \<open>
  C7. A waitlist POST leaves the table as it was or appends one row, whose email is the
  submitted email lower-cased and trimmed, and it appends only when no row of the table has
  that email. A submission that passes the limiter and the schema while a row with its
  normalised email exists is answered with status 400 and the error
  \<^verbatim>\<open>This email is already on the waitlist\<close>, and the table stays as it was. Hence, served one
  after the other from an empty table, no sequence of requests leaves two rows with the same
  normalised email. This holds for both route files.
\<close>

theorem waitlist_normalized_unique:
  "(waitlist (POST isEmail e store table req) = table
      \<or> (\<exists>address. submitted_email req = Some address
            \<and> waitlist (POST isEmail e store table req)
                = table @ [\<lparr>row_id = nanoid e, email = trim (toLowerCase address)\<rparr>]
            \<and> \<not> list_ex (\<lambda>row. email row = trim (toLowerCase address)) table))
   \<and> (allowed (fst (checkRateLimit store (client_ip req) 3 60000 (now_check e)))
        \<and> \<not> bodyUsed req \<and> submitted_email req = Some submitted
        \<and> isEmail submitted \<and> refine_email submitted \<and> \<not> fails e SelectWaitlist
        \<and> list_ex (\<lambda>row. email row = trim (toLowerCase submitted)) table
      \<longrightarrow> reply (POST isEmail e store table req)
            = \<lparr>status = 400, success = False,
               error = Some (Message ''This email is already on the waitlist''),
               retryAfter = None\<rparr>
          \<and> waitlist (POST isEmail e store table req) = table)
   \<and> distinct (map (\<lambda>row. trim (toLowerCase (email row))) (POST_all isEmail store [] requests))
   \<and> (waitlist (POST_DB isEmail e rows table req) = table
      \<or> (\<exists>address. submitted_email req = Some address
            \<and> waitlist (POST_DB isEmail e rows table req)
                = table @ [\<lparr>row_id = nanoid e, email = trim (toLowerCase address)\<rparr>]
            \<and> \<not> list_ex (\<lambda>row. email row = trim (toLowerCase address)) table))
   \<and> ((\<exists>r. fst (checkRateLimitDB (fails e) rows (client_ip req) 3 120000 (Date (now_check e))) = Inr r
            \<and> allowed r)
        \<and> \<not> bodyUsed req \<and> submitted_email req = Some submitted
        \<and> isEmail submitted \<and> refine_email submitted \<and> \<not> fails e SelectWaitlist
        \<and> list_ex (\<lambda>row. email row = trim (toLowerCase submitted)) table
      \<longrightarrow> reply (POST_DB isEmail e rows table req)
            = \<lparr>status = 400, success = False,
               error = Some (Message ''This email is already on the waitlist''),
               retryAfter = None\<rparr>
          \<and> waitlist (POST_DB isEmail e rows table req) = table)
   \<and> distinct (map (\<lambda>row. trim (toLowerCase (email row))) (POST_DB_all isEmail rows [] requests))"
proof (intro conjI impI)
  show "waitlist (POST isEmail e store table req) = table
      \<or> (\<exists>address. submitted_email req = Some address
            \<and> waitlist (POST isEmail e store table req)
                = table @ [\<lparr>row_id = nanoid e, email = trim (toLowerCase address)\<rparr>]
            \<and> \<not> list_ex (\<lambda>row. email row = trim (toLowerCase address)) table)"
    by (rule POST_inserts)
  show "waitlist (POST_DB isEmail e rows table req) = table
      \<or> (\<exists>address. submitted_email req = Some address
            \<and> waitlist (POST_DB isEmail e rows table req)
                = table @ [\<lparr>row_id = nanoid e, email = trim (toLowerCase address)\<rparr>]
            \<and> \<not> list_ex (\<lambda>row. email row = trim (toLowerCase address)) table)"
    by (rule POST_DB_inserts)
  show "distinct (map (\<lambda>row. trim (toLowerCase (email row))) (POST_all isEmail store [] requests))"
    by (intro waitlist_ok_distinct POST_all_ok waitlist_ok_Nil)
  show "distinct (map (\<lambda>row. trim (toLowerCase (email row))) (POST_DB_all isEmail rows [] requests))"
    by (intro waitlist_ok_distinct POST_DB_all_ok waitlist_ok_Nil)
next
  assume h: "allowed (fst (checkRateLimit store (client_ip req) 3 60000 (now_check e)))
        \<and> \<not> bodyUsed req \<and> submitted_email req = Some submitted
        \<and> isEmail submitted \<and> refine_email submitted \<and> \<not> fails e SelectWaitlist
        \<and> list_ex (\<lambda>row. email row = trim (toLowerCase submitted)) table"
  then have tried: "POST_try isEmail e store table req =
     (fst (register_email e table submitted),
      snd (checkRateLimit store (client_ip req) 3 60000 (now_check e)),
      snd (register_email e table submitted), True)"
    by (intro POST_accepts) simp_all
  from h have dup: "register_email e table submitted =
     (Inr \<lparr>status = 400, success = False,
           error = Some (Message ''This email is already on the waitlist''),
           retryAfter = None\<rparr>, table)"
    by (intro register_email_duplicate) simp_all
  show "reply (POST isEmail e store table req)
            = \<lparr>status = 400, success = False,
               error = Some (Message ''This email is already on the waitlist''),
               retryAfter = None\<rparr>"
    and "waitlist (POST isEmail e store table req) = table"
    by (simp_all add: POST_def tried dup)
next
  assume h: "(\<exists>r. fst (checkRateLimitDB (fails e) rows (client_ip req) 3 120000 (Date (now_check e))) = Inr r
            \<and> allowed r)
        \<and> \<not> bodyUsed req \<and> submitted_email req = Some submitted
        \<and> isEmail submitted \<and> refine_email submitted \<and> \<not> fails e SelectWaitlist
        \<and> list_ex (\<lambda>row. email row = trim (toLowerCase submitted)) table"
  then obtain r where r: "fst (checkRateLimitDB (fails e) rows (client_ip req) 3 120000 (Date (now_check e))) = Inr r"
    "allowed r" by blast
  from h have tried: "POST_DB_try isEmail e rows table req =
     (fst (register_email e table submitted),
      snd (checkRateLimitDB (fails e) rows (client_ip req) 3 120000 (Date (now_check e))),
      snd (register_email e table submitted), True)"
    by (intro POST_DB_accepts[OF r]) simp_all
  from h have dup: "register_email e table submitted =
     (Inr \<lparr>status = 400, success = False,
           error = Some (Message ''This email is already on the waitlist''),
           retryAfter = None\<rparr>, table)"
    by (intro register_email_duplicate) simp_all
  show "reply (POST_DB isEmail e rows table req)
            = \<lparr>status = 400, success = False,
               error = Some (Message ''This email is already on the waitlist''),
               retryAfter = None\<rparr>"
    and "waitlist (POST_DB isEmail e rows table req) = table"
    by (simp_all add: POST_DB_def tried dup)
qed

theorem waitlist_normalized_unique_witness:
  "allowed (fst (checkRateLimit rateLimitStore_init
       (client_ip \<lparr>headers = [''x-real-ip'' \<mapsto> ''203.0.113.7''],
                   body = Json (JObject [(''email'', JString ''User@gmail.com'')]),
                   bodyUsed = False, pathname = ''/api/waitlist/join'',
                   origin = ''https://nimbus.example'', request_ip = None\<rparr>)
       3 60000 1000))
   \<and> submitted_email \<lparr>headers = [''x-real-ip'' \<mapsto> ''203.0.113.7''],
                   body = Json (JObject [(''email'', JString ''User@gmail.com'')]),
                   bodyUsed = False, pathname = ''/api/waitlist/join'',
                   origin = ''https://nimbus.example'', request_ip = None\<rparr> = Some ''User@gmail.com''
   \<and> refine_email ''User@gmail.com''
   \<and> list_ex (\<lambda>row. email row = trim (toLowerCase ''User@gmail.com''))
        [\<lparr>row_id = ''V1StGXR8'', email = ''user@gmail.com''\<rparr>]
   \<and> reply (POST (\<lambda>s. True)
        \<lparr>now_check = 1000, now_reply = 1000, nanoid = ''Z5aQ0kLm'', fails = no_faults\<rparr>
        rateLimitStore_init [\<lparr>row_id = ''V1StGXR8'', email = ''user@gmail.com''\<rparr>]
        \<lparr>headers = [''x-real-ip'' \<mapsto> ''203.0.113.7''],
         body = Json (JObject [(''email'', JString ''User@gmail.com'')]),
         bodyUsed = False, pathname = ''/api/waitlist/join'',
         origin = ''https://nimbus.example'', request_ip = None\<rparr>)
      = \<lparr>status = 400, success = False,
         error = Some (Message ''This email is already on the waitlist''), retryAfter = None\<rparr>
   \<and> (\<exists>r. fst (checkRateLimitDB no_faults []
       (client_ip \<lparr>headers = [''x-real-ip'' \<mapsto> ''203.0.113.7''],
                   body = Json (JObject [(''email'', JString ''User@gmail.com'')]),
                   bodyUsed = False, pathname = ''/api/waitlist/join'',
                   origin = ''https://nimbus.example'', request_ip = None\<rparr>)
       3 120000 (Date 1000)) = Inr r \<and> allowed r)
   \<and> waitlist (POST_DB (\<lambda>s. True)
        \<lparr>now_check = 1000, now_reply = 1000, nanoid = ''Z5aQ0kLm'', fails = no_faults\<rparr>
        [] [\<lparr>row_id = ''V1StGXR8'', email = ''user@gmail.com''\<rparr>]
        \<lparr>headers = [''x-real-ip'' \<mapsto> ''203.0.113.7''],
         body = Json (JObject [(''email'', JString ''User@gmail.com'')]),
         bodyUsed = False, pathname = ''/api/waitlist/join'',
         origin = ''https://nimbus.example'', request_ip = None\<rparr>)
      = [\<lparr>row_id = ''V1StGXR8'', email = ''user@gmail.com''\<rparr>]"
proof -
  have norm: "trim (toLowerCase ''User@gmail.com'') = ''user@gmail.com''"
    by code_simp
  have refine: "refine_email ''User@gmail.com''"
    by (simp add: refine_email_def domain_of_def split_def domain_allowed_def
        ALLOWED_DOMAINS_def endsWith_def tld_test_def is_lower_def is_upper_def)
  have db: "fst (checkRateLimitDB no_faults [] ''203.0.113.7'' 3 120000 (Date 1000))
      = Inr \<lparr>allowed = True, remaining = 2, res_resetTime = Date 121000\<rparr>"
    by (simp add: checkRateLimitDB_def no_faults_def select_attempt_def Let_def)
  show ?thesis
    using waitlist_normalized_unique[where isEmail = "\<lambda>s. True"
        and e = "\<lparr>now_check = 1000, now_reply = 1000, nanoid = ''Z5aQ0kLm'', fails = no_faults\<rparr>"
        and store = rateLimitStore_init
        and table = "[\<lparr>row_id = ''V1StGXR8'', email = ''user@gmail.com''\<rparr>]"
        and req = "\<lparr>headers = [''x-real-ip'' \<mapsto> ''203.0.113.7''],
         body = Json (JObject [(''email'', JString ''User@gmail.com'')]),
         bodyUsed = False, pathname = ''/api/waitlist/join'',
         origin = ''https://nimbus.example'', request_ip = None\<rparr>"
        and submitted = "''User@gmail.com''" and rows = "[]" and requests = "[]"]
    by (simp add: norm refine db client_ip_def submitted_email_def no_faults_def
        checkRateLimit_def start_window_def rateLimitStore_init_def)
qed

section \<open>Case-sensitive domain matching\<close>

text \<open>
  C8 (as amended). Take a syntactically valid email whose domain is an allowed domain, or a
  subdomain of one, in which the allowed domain itself is written with some letter in another
  case (such as \<^verbatim>\<open>user@Gmail.com\<close>). The refinement of the schema rejects it, since the
  domain is compared with the list by equality and \<^verbatim>\<open>endsWith\<close> as it is written; so a POST
  that submits it and passes the limiter is answered with status 400 and \<^verbatim>\<open>success: false\<close>,
  and nothing is inserted. The test of the top-level label, by contrast, gives the same answer
  for a label and for its lower-case form.
\<close>

theorem case_variant_domain_rejected:
  assumes "isEmail address" and "domain_of address = Some domain"
    and "a \<in> set ALLOWED_DOMAINS" and "toLowerCase s = a" and "s \<noteq> a"
    and "domain = s \<or> domain = p @ ''.'' @ s"
    and "submitted_email req = Some address" and "\<not> bodyUsed req"
  shows "\<not> refine_email address
       \<and> (allowed (fst (checkRateLimit store (client_ip req) 3 60000 (now_check e))) \<longrightarrow>
            status (reply (POST isEmail e store table req)) = 400
            \<and> \<not> success (reply (POST isEmail e store table req))
            \<and> waitlist (POST isEmail e store table req) = table)
       \<and> ((\<exists>r. fst (checkRateLimitDB (fails e) rows (client_ip req) 3 120000 (Date (now_check e))) = Inr r
              \<and> allowed r) \<longrightarrow>
            status (reply (POST_DB isEmail e rows table req)) = 400
            \<and> \<not> success (reply (POST_DB isEmail e rows table req))
            \<and> waitlist (POST_DB isEmail e rows table req) = table)
       \<and> (\<forall>tld. tld_test (toLowerCase tld) = tld_test tld)"
proof -
  have "\<not> domain_allowed domain"
    using assms(6) case_variant_exact[OF assms(3,4,5)] case_variant_sub[OF assms(3,4,5), of p]
    by auto
  then have rejected: "\<not> refine_email address"
    using assms(2) by (simp add: refine_email_def)
  from assms(7) obtain props where body: "body req = Json (JObject props)"
    "map_of props ''email'' = Some (JString address)"
    by (auto simp: submitted_email_Some)
  have parse: "emailSchema_safeParse isEmail msg (JObject props) = Inl [Custom msg]" for msg
    using body(2) assms(1) rejected by (simp add: emailSchema_safeParse_def)
  have mem: "status (reply (POST isEmail e store table req)) = 400
            \<and> \<not> success (reply (POST isEmail e store table req))
            \<and> waitlist (POST isEmail e store table req) = table"
    if "allowed (fst (checkRateLimit store (client_ip req) 3 60000 (now_check e)))"
    using that assms(8) body(1)
    by (simp add: POST_def POST_try_def split_beta request_json_def parse)
  have db: "status (reply (POST_DB isEmail e rows table req)) = 400
            \<and> \<not> success (reply (POST_DB isEmail e rows table req))
            \<and> waitlist (POST_DB isEmail e rows table req) = table"
    if "fst (checkRateLimitDB (fails e) rows (client_ip req) 3 120000 (Date (now_check e))) = Inr r"
      and "allowed r" for r
    using that assms(8) body(1)
    by (cases "checkRateLimitDB (fails e) rows (client_ip req) 3 120000 (Date (now_check e))")
       (simp add: POST_DB_def POST_DB_try_def request_json_def parse)
  from rejected mem db show ?thesis
    by (auto simp: tld_test_toLowerCase)
qed

theorem case_variant_domain_rejected_witness:
  "domain_of ''user@Gmail.com'' = Some ''Gmail.com''
   \<and> ''gmail.com'' \<in> set ALLOWED_DOMAINS
   \<and> toLowerCase ''Gmail.com'' = ''gmail.com''
   \<and> ''Gmail.com'' \<noteq> ''gmail.com''
   \<and> submitted_email \<lparr>headers = [''x-real-ip'' \<mapsto> ''203.0.113.7''],
         body = Json (JObject [(''email'', JString ''user@Gmail.com'')]),
         bodyUsed = False, pathname = ''/api/waitlist/join'',
         origin = ''https://nimbus.example'', request_ip = None\<rparr> = Some ''user@Gmail.com''
   \<and> allowed (fst (checkRateLimit rateLimitStore_init
       (client_ip \<lparr>headers = [''x-real-ip'' \<mapsto> ''203.0.113.7''],
         body = Json (JObject [(''email'', JString ''user@Gmail.com'')]),
         bodyUsed = False, pathname = ''/api/waitlist/join'',
         origin = ''https://nimbus.example'', request_ip = None\<rparr>) 3 60000 1000))
   \<and> \<not> refine_email ''user@Gmail.com''
   \<and> status (reply (POST (\<lambda>s. True)
        \<lparr>now_check = 1000, now_reply = 1000, nanoid = ''Z5aQ0kLm'', fails = no_faults\<rparr>
        rateLimitStore_init []
        \<lparr>headers = [''x-real-ip'' \<mapsto> ''203.0.113.7''],
         body = Json (JObject [(''email'', JString ''user@Gmail.com'')]),
         bodyUsed = False, pathname = ''/api/waitlist/join'',
         origin = ''https://nimbus.example'', request_ip = None\<rparr>)) = 400
   \<and> refine_email ''user@gmail.com''"
proof -
  have lower: "toLowerCase ''Gmail.com'' = ''gmail.com''"
    by code_simp
  have dom: "domain_of ''user@Gmail.com'' = Some ''Gmail.com''"
    by (simp add: domain_of_def split_def)
  have refine: "refine_email ''user@gmail.com''"
    by (simp add: refine_email_def domain_of_def split_def domain_allowed_def
        ALLOWED_DOMAINS_def endsWith_def tld_test_def is_lower_def is_upper_def)
  have sub: "submitted_email \<lparr>headers = [''x-real-ip'' \<mapsto> ''203.0.113.7''],
         body = Json (JObject [(''email'', JString ''user@Gmail.com'')]),
         bodyUsed = False, pathname = ''/api/waitlist/join'',
         origin = ''https://nimbus.example'', request_ip = None\<rparr> = Some ''user@Gmail.com''"
    by (simp add: submitted_email_def)
  have al: "''gmail.com'' \<in> set ALLOWED_DOMAINS"
    by (simp add: ALLOWED_DOMAINS_def)
  have ok: "allowed (fst (checkRateLimit rateLimitStore_init
       (client_ip \<lparr>headers = [''x-real-ip'' \<mapsto> ''203.0.113.7''],
         body = Json (JObject [(''email'', JString ''user@Gmail.com'')]),
         bodyUsed = False, pathname = ''/api/waitlist/join'',
         origin = ''https://nimbus.example'', request_ip = None\<rparr>) 3 60000 1000))"
    by (simp add: checkRateLimit_def start_window_def rateLimitStore_init_def)
  show ?thesis
    using case_variant_domain_rejected[where isEmail = "\<lambda>s. True"
        and address = "''user@Gmail.com''" and domain = "''Gmail.com''"
        and a = "''gmail.com''" and s = "''Gmail.com''" and p = "[]"
        and req = "\<lparr>headers = [''x-real-ip'' \<mapsto> ''203.0.113.7''],
         body = Json (JObject [(''email'', JString ''user@Gmail.com'')]),
         bodyUsed = False, pathname = ''/api/waitlist/join'',
         origin = ''https://nimbus.example'', request_ip = None\<rparr>"
        and store = rateLimitStore_init
        and e = "\<lparr>now_check = 1000, now_reply = 1000, nanoid = ''Z5aQ0kLm'', fails = no_faults\<rparr>"
        and table = "[]" and rows = "[]", OF _ dom al lower _ _ sub]
      lower dom refine sub al ok
    by simp
qed

text \<open>A difference of case in the labels before the allowed domain does not matter:
  \<^verbatim>\<open>Mail.gmail.com\<close> differs from the allowed \<^verbatim>\<open>mail.gmail.com\<close> only by case, and both
  handlers accept it.\<close>

theorem case_variant_domain_rejected_counterexample:
  "domain_of ''user@Mail.gmail.com'' = Some ''Mail.gmail.com''
   \<and> domain_allowed ''mail.gmail.com''
   \<and> ''Mail.gmail.com'' \<noteq> ''mail.gmail.com''
   \<and> toLowerCase ''Mail.gmail.com'' = toLowerCase ''mail.gmail.com''
   \<and> reply (POST (\<lambda>s. True)
        \<lparr>now_check = 1000, now_reply = 1000, nanoid = ''Z5aQ0kLm'', fails = no_faults\<rparr>
        rateLimitStore_init []
        \<lparr>headers = [''x-real-ip'' \<mapsto> ''203.0.113.7''],
         body = Json (JObject [(''email'', JString ''user@Mail.gmail.com'')]),
         bodyUsed = False, pathname = ''/api/waitlist/join'',
         origin = ''https://nimbus.example'', request_ip = None\<rparr>)
      = \<lparr>status = 201, success = True, error = None, retryAfter = None\<rparr>
   \<and> reply (POST_DB (\<lambda>s. True)
        \<lparr>now_check = 1000, now_reply = 1000, nanoid = ''Z5aQ0kLm'', fails = no_faults\<rparr>
        [] []
        \<lparr>headers = [''x-real-ip'' \<mapsto> ''203.0.113.7''],
         body = Json (JObject [(''email'', JString ''user@Mail.gmail.com'')]),
         bodyUsed = False, pathname = ''/api/waitlist/join'',
         origin = ''https://nimbus.example'', request_ip = None\<rparr>)
      = \<lparr>status = 201, success = True, error = None, retryAfter = None\<rparr>"
proof -
  have lower: "toLowerCase ''Mail.gmail.com'' = toLowerCase ''mail.gmail.com''"
    by code_simp
  have refine: "refine_email ''user@Mail.gmail.com''"
    by (simp add: refine_email_def domain_of_def split_def domain_allowed_def
        ALLOWED_DOMAINS_def endsWith_def tld_test_def is_lower_def is_upper_def)
  have dom: "domain_of ''user@Mail.gmail.com'' = Some ''Mail.gmail.com''"
    by (simp add: domain_of_def split_def)
  have al: "domain_allowed ''mail.gmail.com''"
    by (simp add: domain_allowed_def ALLOWED_DOMAINS_def endsWith_def)
  show ?thesis
    by (simp add: lower dom al refine POST_def POST_try_def POST_DB_def POST_DB_try_def
        client_ip_def checkRateLimit_def start_window_def rateLimitStore_init_def
        checkRateLimitDB_def no_faults_def select_attempt_def Let_def request_json_def
        emailSchema_safeParse_def register_email_def)
qed

section \<open>Errors inside the handlers\<close>

text \<open>
  C9. The body of each handler is one \<^verbatim>\<open>try\<close> block whose \<^verbatim>\<open>catch\<close> answers every exception, so
  a handler always returns a response: whenever something throws inside it (the body does not
  parse as JSON, a database statement fails) the response has status 500 and the body
  \<^verbatim>\<open>{success: false, error: "Internal server error"}\<close>; and every response with a status other
  than 201 carries \<^verbatim>\<open>success: false\<close>.
\<close>

theorem handler_catches_everything:
  "(\<forall>x. fst (POST_try isEmail e store table req) = Inl x \<longrightarrow>
      reply (POST isEmail e store table req)
        = \<lparr>status = 500, success = False, error = Some (Message ''Internal server error''),
           retryAfter = None\<rparr>)
   \<and> (status (reply (POST isEmail e store table req)) \<noteq> 201 \<longrightarrow>
        \<not> success (reply (POST isEmail e store table req)))
   \<and> (allowed (fst (checkRateLimit store (client_ip req) 3 60000 (now_check e)))
        \<and> body req = NotJson \<longrightarrow> fst (POST_try isEmail e store table req) = Inl
             (if bodyUsed req then TypeError else SyntaxError))
   \<and> (allowed (fst (checkRateLimit store (client_ip req) 3 60000 (now_check e)))
        \<and> body req = NoBody \<longrightarrow> fst (POST_try isEmail e store table req) = Inl SyntaxError)
   \<and> (allowed (fst (checkRateLimit store (client_ip req) 3 60000 (now_check e)))
        \<and> \<not> bodyUsed req \<and> submitted_email req = Some address
        \<and> isEmail address \<and> refine_email address
        \<and> (fails e SelectWaitlist
            \<or> (\<not> list_ex (\<lambda>row. email row = trim (toLowerCase address)) table
                \<and> fails e InsertWaitlist))
      \<longrightarrow> fst (POST_try isEmail e store table req) = Inl DbError)
   \<and> (\<forall>x. fst (POST_DB_try isEmail e rows table req) = Inl x \<longrightarrow>
      reply (POST_DB isEmail e rows table req)
        = \<lparr>status = 500, success = False, error = Some (Message ''Internal server error''),
           retryAfter = None\<rparr>)
   \<and> (status (reply (POST_DB isEmail e rows table req)) \<noteq> 201 \<longrightarrow>
        \<not> success (reply (POST_DB isEmail e rows table req)))
   \<and> (fails e SelectAttempt \<longrightarrow> fst (POST_DB_try isEmail e rows table req) = Inl DbError)
   \<and> ((\<exists>r. fst (checkRateLimitDB (fails e) rows (client_ip req) 3 120000 (Date (now_check e))) = Inr r
            \<and> allowed r)
        \<and> body req = NotJson \<longrightarrow> fst (POST_DB_try isEmail e rows table req) = Inl
             (if bodyUsed req then TypeError else SyntaxError))
   \<and> ((\<exists>r. fst (checkRateLimitDB (fails e) rows (client_ip req) 3 120000 (Date (now_check e))) = Inr r
            \<and> allowed r)
        \<and> body req = NoBody \<longrightarrow> fst (POST_DB_try isEmail e rows table req) = Inl SyntaxError)"
proof (intro conjI allI impI)
  fix x
  assume "fst (POST_try isEmail e store table req) = Inl x"
  then show "reply (POST isEmail e store table req)
        = \<lparr>status = 500, success = False, error = Some (Message ''Internal server error''),
           retryAfter = None\<rparr>"
    by (cases "POST_try isEmail e store table req") (simp add: POST_def internal_error_def)
next
  assume "status (reply (POST isEmail e store table req)) \<noteq> 201"
  then show "\<not> success (reply (POST isEmail e store table req))"
    by (auto simp: POST_def POST_try_def split_beta too_many_requests_def internal_error_def
        register_email_def request_json_def split: sum.splits option.splits if_splits prod.splits payload.splits)
next
  assume "allowed (fst (checkRateLimit store (client_ip req) 3 60000 (now_check e)))
        \<and> body req = NotJson"
  then show "fst (POST_try isEmail e store table req) = Inl
             (if bodyUsed req then TypeError else SyntaxError)"
    by (simp add: POST_try_def split_beta request_json_def)
next
  assume "allowed (fst (checkRateLimit store (client_ip req) 3 60000 (now_check e)))
        \<and> body req = NoBody"
  then show "fst (POST_try isEmail e store table req) = Inl SyntaxError"
    by (simp add: POST_try_def split_beta request_json_def)
next
  assume h: "allowed (fst (checkRateLimit store (client_ip req) 3 60000 (now_check e)))
        \<and> \<not> bodyUsed req \<and> submitted_email req = Some address
        \<and> isEmail address \<and> refine_email address
        \<and> (fails e SelectWaitlist
            \<or> (\<not> list_ex (\<lambda>row. email row = trim (toLowerCase address)) table
                \<and> fails e InsertWaitlist))"
  then have "POST_try isEmail e store table req =
     (fst (register_email e table address),
      snd (checkRateLimit store (client_ip req) 3 60000 (now_check e)),
      snd (register_email e table address), True)"
    by (intro POST_accepts) simp_all
  moreover have "fst (register_email e table address) = Inl DbError"
  proof (cases "fails e SelectWaitlist")
    case True
    then show ?thesis by (simp add: register_email_def)
  next
    case False
    with h have "\<not> list_ex (\<lambda>row. email row = trim (toLowerCase address)) table"
      and "fails e InsertWaitlist" by auto
    then have "find (\<lambda>row. email row = trim (toLowerCase address)) table = None"
      and "fails e InsertWaitlist" by (simp_all add: list_ex_iff find_None_iff)
    with False show ?thesis by (simp add: register_email_def)
  qed
  ultimately show "fst (POST_try isEmail e store table req) = Inl DbError" by simp
next
  fix x
  assume "fst (POST_DB_try isEmail e rows table req) = Inl x"
  then show "reply (POST_DB isEmail e rows table req)
        = \<lparr>status = 500, success = False, error = Some (Message ''Internal server error''),
           retryAfter = None\<rparr>"
    by (cases "POST_DB_try isEmail e rows table req") (simp add: POST_DB_def internal_error_def)
next
  assume "status (reply (POST_DB isEmail e rows table req)) \<noteq> 201"
  then show "\<not> success (reply (POST_DB isEmail e rows table req))"
    by (auto simp: POST_DB_def POST_DB_try_def split_beta too_many_requests_def internal_error_def
        register_email_def request_json_def split: sum.splits option.splits if_splits prod.splits payload.splits)
next
  assume "fails e SelectAttempt"
  then show "fst (POST_DB_try isEmail e rows table req) = Inl DbError"
    by (simp add: POST_DB_try_def checkRateLimitDB_def)
next
  assume "(\<exists>r. fst (checkRateLimitDB (fails e) rows (client_ip req) 3 120000 (Date (now_check e))) = Inr r
            \<and> allowed r)
        \<and> body req = NotJson"
  then show "fst (POST_DB_try isEmail e rows table req) = Inl
             (if bodyUsed req then TypeError else SyntaxError)"
    by (cases "checkRateLimitDB (fails e) rows (client_ip req) 3 120000 (Date (now_check e))")
       (auto simp: POST_DB_try_def request_json_def)
next
  assume "(\<exists>r. fst (checkRateLimitDB (fails e) rows (client_ip req) 3 120000 (Date (now_check e))) = Inr r
            \<and> allowed r)
        \<and> body req = NoBody"
  then show "fst (POST_DB_try isEmail e rows table req) = Inl SyntaxError"
    by (cases "checkRateLimitDB (fails e) rows (client_ip req) 3 120000 (Date (now_check e))")
       (auto simp: POST_DB_try_def request_json_def)
qed

theorem handler_catches_everything_witness:
  "allowed (fst (checkRateLimit rateLimitStore_init
       (client_ip \<lparr>headers = [''x-real-ip'' \<mapsto> ''203.0.113.7''], body = NotJson,
                   bodyUsed = False, pathname = ''/api/waitlist/join'',
                   origin = ''https://nimbus.example'', request_ip = None\<rparr>) 3 60000 1000))
   \<and> fst (POST_try (\<lambda>s. True)
        \<lparr>now_check = 1000, now_reply = 1000, nanoid = ''Z5aQ0kLm'', fails = no_faults\<rparr>
        rateLimitStore_init []
        \<lparr>headers = [''x-real-ip'' \<mapsto> ''203.0.113.7''], body = NotJson,
         bodyUsed = False, pathname = ''/api/waitlist/join'',
         origin = ''https://nimbus.example'', request_ip = None\<rparr>) = Inl SyntaxError
   \<and> reply (POST (\<lambda>s. True)
        \<lparr>now_check = 1000, now_reply = 1000, nanoid = ''Z5aQ0kLm'', fails = no_faults\<rparr>
        rateLimitStore_init []
        \<lparr>headers = [''x-real-ip'' \<mapsto> ''203.0.113.7''], body = NotJson,
         bodyUsed = False, pathname = ''/api/waitlist/join'',
         origin = ''https://nimbus.example'', request_ip = None\<rparr>)
      = \<lparr>status = 500, success = False, error = Some (Message ''Internal server error''),
         retryAfter = None\<rparr>
   \<and> fst (POST_try (\<lambda>s. True)
        \<lparr>now_check = 1000, now_reply = 1000, nanoid = ''Z5aQ0kLm'', fails = no_faults\<rparr>
        rateLimitStore_init []
        \<lparr>headers = [''x-real-ip'' \<mapsto> ''203.0.113.7''], body = NoBody,
         bodyUsed = False, pathname = ''/api/waitlist/join'',
         origin = ''https://nimbus.example'', request_ip = None\<rparr>) = Inl SyntaxError
   \<and> reply (POST_DB (\<lambda>s. True)
        \<lparr>now_check = 1000, now_reply = 1000, nanoid = ''Z5aQ0kLm'',
         fails = (\<lambda>op. op = SelectAttempt)\<rparr>
        [] []
        \<lparr>headers = [''x-real-ip'' \<mapsto> ''203.0.113.7''],
         body = Json (JObject [(''email'', JString ''user@gmail.com'')]),
         bodyUsed = False, pathname = ''/api/waitlist/join'',
         origin = ''https://nimbus.example'', request_ip = None\<rparr>)
      = \<lparr>status = 500, success = False, error = Some (Message ''Internal server error''),
         retryAfter = None\<rparr>"
proof -
  have ok: "allowed (fst (checkRateLimit rateLimitStore_init
       (client_ip \<lparr>headers = [''x-real-ip'' \<mapsto> ''203.0.113.7''], body = NotJson,
                   bodyUsed = False, pathname = ''/api/waitlist/join'',
                   origin = ''https://nimbus.example'', request_ip = None\<rparr>) 3 60000 1000))"
    by (simp add: checkRateLimit_def start_window_def rateLimitStore_init_def)
  have ok': "allowed (fst (checkRateLimit rateLimitStore_init
       (client_ip \<lparr>headers = [''x-real-ip'' \<mapsto> ''203.0.113.7''], body = NoBody,
                   bodyUsed = False, pathname = ''/api/waitlist/join'',
                   origin = ''https://nimbus.example'', request_ip = None\<rparr>) 3 60000 1000))"
    by (simp add: checkRateLimit_def start_window_def rateLimitStore_init_def)
  show ?thesis
    using ok ok'
      handler_catches_everything[where isEmail = "\<lambda>s. True"
        and e = "\<lparr>now_check = 1000, now_reply = 1000, nanoid = ''Z5aQ0kLm'', fails = no_faults\<rparr>"
        and store = rateLimitStore_init and table = "[]" and rows = "[]"
        and req = "\<lparr>headers = [''x-real-ip'' \<mapsto> ''203.0.113.7''], body = NotJson,
         bodyUsed = False, pathname = ''/api/waitlist/join'',
         origin = ''https://nimbus.example'', request_ip = None\<rparr>"]
      handler_catches_everything[where isEmail = "\<lambda>s. True"
        and e = "\<lparr>now_check = 1000, now_reply = 1000, nanoid = ''Z5aQ0kLm'', fails = no_faults\<rparr>"
        and store = rateLimitStore_init and table = "[]" and rows = "[]"
        and req = "\<lparr>headers = [''x-real-ip'' \<mapsto> ''203.0.113.7''], body = NoBody,
         bodyUsed = False, pathname = ''/api/waitlist/join'',
         origin = ''https://nimbus.example'', request_ip = None\<rparr>"]
      handler_catches_everything[where isEmail = "\<lambda>s. True"
        and e = "\<lparr>now_check = 1000, now_reply = 1000, nanoid = ''Z5aQ0kLm'',
                 fails = (\<lambda>op. op = SelectAttempt)\<rparr>"
        and store = rateLimitStore_init and table = "[]" and rows = "[]"
        and req = "\<lparr>headers = [''x-real-ip'' \<mapsto> ''203.0.113.7''],
         body = Json (JObject [(''email'', JString ''user@gmail.com'')]),
         bodyUsed = False, pathname = ''/api/waitlist/join'',
         origin = ''https://nimbus.example'', request_ip = None\<rparr>"]
    by simp
qed

end
